theory Spec2Isabelle
  imports Complex_Main
begin

section \<open>Text primitives of the Python runtime\<close>

text \<open>
  The bot is a single Python module, \<^verbatim>\<open>bot.py\<close>. Its texts are Python strings; here a
  text is a \<^typ>\<open>string\<close>, a list of characters with code points below 256. The library
  functions the module calls on texts (\<^verbatim>\<open>str.lower\<close>, \<^verbatim>\<open>str.strip\<close>,
  \<^verbatim>\<open>str.split\<close>, the operator \<^verbatim>\<open>in\<close>, \<^verbatim>\<open>int\<close>, \<^verbatim>\<open>str\<close> and the two calls of
  \<^verbatim>\<open>re.search\<close>) are written out for these code points.
\<close>

definition py_ord :: "char \<Rightarrow> nat" where
  "py_ord c = of_char c"

text \<open>
  \<^verbatim>\<open>str.lower\<close>: the letters A-Z and the upper-case letters of the upper half of the
  table (192 to 222, without the multiplication sign 215) move up by 32.
\<close>

definition lower_char :: "char \<Rightarrow> char" where
  "lower_char c =
     (if (65 \<le> py_ord c \<and> py_ord c \<le> 90) \<or> (192 \<le> py_ord c \<and> py_ord c \<le> 222 \<and> py_ord c \<noteq> 215)
      then char_of (py_ord c + 32) else c)"

definition upper_char :: "char \<Rightarrow> char" where
  "upper_char c =
     (if (97 \<le> py_ord c \<and> py_ord c \<le> 122) \<or> (224 \<le> py_ord c \<and> py_ord c \<le> 254 \<and> py_ord c \<noteq> 247)
      then char_of (py_ord c - 32) else c)"

definition lower :: "string \<Rightarrow> string" where
  "lower s = map lower_char s"

text \<open>The operator \<^verbatim>\<open>sub in s\<close> on strings: \<^verbatim>\<open>sub\<close> occurs in \<^verbatim>\<open>s\<close> as a contiguous piece.\<close>

fun starts_with :: "string \<Rightarrow> string \<Rightarrow> bool" where
  "starts_with s [] = True"
| "starts_with [] (p # ps) = False"
| "starts_with (c # cs) (p # ps) = (c = p \<and> starts_with cs ps)"

fun str_in :: "string \<Rightarrow> string \<Rightarrow> bool" where
  "str_in sub [] = (sub = [])"
| "str_in sub (c # cs) = (starts_with (c # cs) sub \<or> str_in sub cs)"

text \<open>\<^verbatim>\<open>str.strip()\<close> removes the white space of both ends.\<close>

definition is_space :: "char \<Rightarrow> bool" where
  "is_space c =
     ((9 \<le> py_ord c \<and> py_ord c \<le> 13) \<or> (28 \<le> py_ord c \<and> py_ord c \<le> 32)
      \<or> py_ord c = 133 \<or> py_ord c = 160)"

definition strip :: "string \<Rightarrow> string" where
  "strip s = rev (dropWhile is_space (rev (dropWhile is_space s)))"

text \<open>\<^verbatim>\<open>s.split(sep)\<close> for a separator of one character: the pieces between its occurrences.\<close>

fun split_on :: "char \<Rightarrow> string \<Rightarrow> string list" where
  "split_on sep [] = [[]]"
| "split_on sep (c # cs) =
     (if c = sep then [] # split_on sep cs
      else (case split_on sep cs of [] \<Rightarrow> [[c]] | w # ws \<Rightarrow> (c # w) # ws))"

text \<open>
  \<^verbatim>\<open>s.split(sep, 1)\<close> on a text that holds the separator: the text before its first
  occurrence and the text after it.
\<close>

definition split_first :: "char \<Rightarrow> string \<Rightarrow> string \<times> string" where
  "split_first sep s = (takeWhile (\<lambda>c. c \<noteq> sep) s, drop 1 (dropWhile (\<lambda>c. c \<noteq> sep) s))"

text \<open>\<^verbatim>\<open>str(n)\<close> of an integer: its decimal digits, after a minus sign when it is negative.\<close>

function str_nat :: "nat \<Rightarrow> string" where
  "str_nat n = (if n < 10 then [char_of (48 + n)] else str_nat (n div 10) @ [char_of (48 + n mod 10)])"
  by pat_completeness auto
termination
  by (relation "measure (\<lambda>n. n)") auto

declare str_nat.simps [simp del]

definition str_int :: "int \<Rightarrow> string" where
  "str_int i = (if i < 0 then CHR ''-'' # str_nat (nat (- i)) else str_nat (nat i))"

text \<open>
  \<^verbatim>\<open>int(s)\<close>: white space around, an optional sign, then decimal digits, where single
  underscores may stand between digits. \<^verbatim>\<open>None\<close> is the \<^verbatim>\<open>ValueError\<close>. The white space
  \<^verbatim>\<open>int\<close> skips is that of \<^verbatim>\<open>strip\<close> without the four separators 28 to 31.
\<close>

definition is_digit :: "char \<Rightarrow> bool" where
  "is_digit c = (48 \<le> py_ord c \<and> py_ord c \<le> 57)"

definition is_int_space :: "char \<Rightarrow> bool" where
  "is_int_space c = ((9 \<le> py_ord c \<and> py_ord c \<le> 13) \<or> py_ord c = 32 \<or> py_ord c = 133 \<or> py_ord c = 160)"

fun digits_ok :: "string \<Rightarrow> bool" where
  "digits_ok [] = False"
| "digits_ok [c] = is_digit c"
| "digits_ok (c # d # cs) =
     (is_digit c \<and> (if d = CHR ''_'' then cs \<noteq> [] \<and> digits_ok cs else digits_ok (d # cs)))"

definition digits_value :: "string \<Rightarrow> nat" where
  "digits_value s = foldl (\<lambda>a c. if c = CHR ''_'' then a else 10 * a + (py_ord c - 48)) 0 s"

definition py_int :: "string \<Rightarrow> int option" where
  "py_int s =
     (let t = rev (dropWhile is_int_space (rev (dropWhile is_int_space s)))
      in case t of
           [] \<Rightarrow> None
         | c # r \<Rightarrow>
             if c = CHR ''-'' then (if digits_ok r then Some (- int (digits_value r)) else None)
             else if c = CHR ''+'' then (if digits_ok r then Some (int (digits_value r)) else None)
             else if digits_ok t then Some (int (digits_value t)) else None)"

subsection \<open>Regular expressions\<close>

text \<open>
  \<^verbatim>\<open>re.search(pattern, text)\<close> is true when some piece of the text matches the pattern.
  The three patterns of the module use single characters, character classes, sequence,
  alternative, the optional \<^verbatim>\<open>?\<close> and the repetition \<^verbatim>\<open>+\<close>; a pattern is matched by
  its derivatives.
\<close>

datatype rexp =
    Zero
  | One
  | Atom "char \<Rightarrow> bool"
  | Alt rexp rexp
  | Seq rexp rexp
  | Star rexp

fun nullable :: "rexp \<Rightarrow> bool" where
  "nullable Zero = False"
| "nullable One = True"
| "nullable (Atom p) = False"
| "nullable (Alt r s) = (nullable r \<or> nullable s)"
| "nullable (Seq r s) = (nullable r \<and> nullable s)"
| "nullable (Star r) = True"

text \<open>Sequence and alternative that drop the patterns nothing can match.\<close>

fun seq :: "rexp \<Rightarrow> rexp \<Rightarrow> rexp" where
  "seq Zero s = Zero"
| "seq One s = s"
| "seq r s = Seq r s"

fun alt :: "rexp \<Rightarrow> rexp \<Rightarrow> rexp" where
  "alt Zero s = s"
| "alt r Zero = r"
| "alt r s = Alt r s"

fun deriv :: "char \<Rightarrow> rexp \<Rightarrow> rexp" where
  "deriv c Zero = Zero"
| "deriv c One = Zero"
| "deriv c (Atom p) = (if p c then One else Zero)"
| "deriv c (Alt r s) = alt (deriv c r) (deriv c s)"
| "deriv c (Seq r s) =
     (if nullable r then alt (seq (deriv c r) s) (deriv c s) else seq (deriv c r) s)"
| "deriv c (Star r) = seq (deriv c r) (Star r)"

text \<open>Some prefix of the text matches the pattern.\<close>

fun match_prefix :: "rexp \<Rightarrow> string \<Rightarrow> bool" where
  "match_prefix r [] = nullable r"
| "match_prefix r (c # cs) =
     (if nullable r then True
      else (case deriv c r of Zero \<Rightarrow> False | d \<Rightarrow> match_prefix d cs))"

fun re_search :: "rexp \<Rightarrow> string \<Rightarrow> bool" where
  "re_search r [] = nullable r"
| "re_search r (c # cs) = (if match_prefix r (c # cs) then True else re_search r cs)"

definition Plus :: "rexp \<Rightarrow> rexp" where
  "Plus r = Seq r (Star r)"

definition Opt :: "rexp \<Rightarrow> rexp" where
  "Opt r = Alt r One"

text \<open>
  Under \<^verbatim>\<open>re.IGNORECASE\<close> a character matches a literal or a class when the character,
  its lower-case form or its upper-case form does.
\<close>

definition ignorecase :: "(char \<Rightarrow> bool) \<Rightarrow> char \<Rightarrow> bool" where
  "ignorecase p c = (p c \<or> p (lower_char c) \<or> p (upper_char c))"

fun lit_i :: "string \<Rightarrow> rexp" where
  "lit_i [] = One"
| "lit_i (c # cs) = Seq (Atom (ignorecase (\<lambda>x. x = c))) (lit_i cs)"

definition in_range :: "char \<Rightarrow> char \<Rightarrow> char \<Rightarrow> bool" where
  "in_range lo hi c = (py_ord lo \<le> py_ord c \<and> py_ord c \<le> py_ord hi)"

text \<open>
  \<^verbatim>\<open>url_pattern = r'http[s]?://(?:[a-zA-Z]|[0-9]|[$-_@.&+]|[!*\\(\\),]|(?:%[0-9a-fA-F][0-9a-fA-F]))+'\<close>,
  searched with \<^verbatim>\<open>re.IGNORECASE\<close>.
\<close>

definition hex_digit :: "char \<Rightarrow> bool" where
  "hex_digit c =
     (in_range CHR ''0'' CHR ''9'' c \<or> in_range CHR ''a'' CHR ''f'' c \<or> in_range CHR ''A'' CHR ''F'' c)"

definition url_unit :: rexp where
  "url_unit =
     Alt (Atom (ignorecase (\<lambda>c. in_range CHR ''a'' CHR ''z'' c \<or> in_range CHR ''A'' CHR ''Z'' c)))
    (Alt (Atom (ignorecase (in_range CHR ''0'' CHR ''9'')))
    (Alt (Atom (ignorecase (\<lambda>c. in_range CHR ''$'' CHR ''_'' c \<or> c \<in> set ''@.&+'')))
    (Alt (Atom (ignorecase (\<lambda>c. c \<in> set [CHR ''!'', CHR ''*'', CHR 0x5C, CHR ''('', CHR 0x5C, CHR '')'', CHR '',''])))
         (Seq (Atom (ignorecase (\<lambda>c. c = CHR ''%'')))
         (Seq (Atom (ignorecase hex_digit)) (Atom (ignorecase hex_digit)))))))"

definition url_pattern :: rexp where
  "url_pattern =
     Seq (lit_i ''http'') (Seq (Opt (Atom (ignorecase (\<lambda>c. c = CHR ''s''))))
       (Seq (lit_i ''://'') (Plus url_unit)))"

text \<open>\<^verbatim>\<open>tg_pattern = r't\.me/|telegram\.me/|telegram\.dog/'\<close>, searched with \<^verbatim>\<open>re.IGNORECASE\<close>.\<close>

definition tg_pattern :: rexp where
  "tg_pattern = Alt (lit_i ''t.me/'') (Alt (lit_i ''telegram.me/'') (lit_i ''telegram.dog/''))"

text \<open>
  \<^verbatim>\<open>r'@\w+'\<close>, searched without a flag. A word character is a letter, a digit or the
  underscore; in the upper half of the table the letters and the numeric signs count.
\<close>

definition word_char :: "char \<Rightarrow> bool" where
  "word_char c =
     (in_range CHR ''0'' CHR ''9'' c \<or> in_range CHR ''A'' CHR ''Z'' c \<or> c = CHR ''_''
      \<or> in_range CHR ''a'' CHR ''z'' c
      \<or> py_ord c \<in> {170, 178, 179, 181, 185, 186, 188, 189, 190}
      \<or> (192 \<le> py_ord c \<and> py_ord c \<noteq> 215 \<and> py_ord c \<noteq> 247))"

definition mention_pattern :: rexp where
  "mention_pattern = Seq (Atom (\<lambda>c. c = CHR ''@'')) (Plus (Atom word_char))"



section \<open>Data model\<close>

text \<open>
  A Python \<^verbatim>\<open>dict\<close> keeps its keys in insertion order, and the module iterates over
  two of its dictionaries, so a dictionary is an association list: assigning to a key that
  is present replaces the value in place, assigning to a new key appends.
\<close>

type_synonym ('k, 'v) dict = "('k \<times> 'v) list"

fun dict_get :: "('k, 'v) dict \<Rightarrow> 'k \<Rightarrow> 'v option" where
  "dict_get [] k = None"
| "dict_get ((k', v) # d) k = (if k' = k then Some v else dict_get d k)"

fun dict_set :: "('k, 'v) dict \<Rightarrow> 'k \<Rightarrow> 'v \<Rightarrow> ('k, 'v) dict" where
  "dict_set [] k v = [(k, v)]"
| "dict_set ((k', v') # d) k v = (if k' = k then (k, v) # d else (k', v') # dict_set d k v)"

fun dict_del :: "('k, 'v) dict \<Rightarrow> 'k \<Rightarrow> ('k, 'v) dict" where
  "dict_del [] k = []"
| "dict_del ((k', v) # d) k = (if k' = k then dict_del d k else (k', v) # dict_del d k)"

text \<open>\<^verbatim>\<open>k in d\<close> and \<^verbatim>\<open>d.get(k, default)\<close>.\<close>

definition dict_has :: "('k, 'v) dict \<Rightarrow> 'k \<Rightarrow> bool" where
  "dict_has d k = (dict_get d k \<noteq> None)"

definition dict_get_or :: "('k, 'v) dict \<Rightarrow> 'k \<Rightarrow> 'v \<Rightarrow> 'v" where
  "dict_get_or d k dflt = (case dict_get d k of None \<Rightarrow> dflt | Some v \<Rightarrow> v)"

text \<open>
  What Python takes for true in a condition: a text that is set and not empty, a
  message id that is set and not zero.
\<close>

definition truthy_str :: "string option \<Rightarrow> bool" where
  "truthy_str s = (s \<noteq> None \<and> s \<noteq> Some [])"

definition truthy_id :: "int option \<Rightarrow> bool" where
  "truthy_id i = (i \<noteq> None \<and> i \<noteq> Some 0)"

text \<open>A button is the dictionary \<^verbatim>\<open>{'text': ..., 'url': ...}\<close>.\<close>

record button =
  btn_text :: string
  btn_url :: string

text \<open>
  The wizard's session (a value of \<^verbatim>\<open>storage.temp_messages\<close>) and a stored recurring
  message are dictionaries that share seven keys; the key \<^verbatim>\<open>'text'\<close> is the field
  \<open>msg_text\<close>. A session adds \<^verbatim>\<open>'chat_id'\<close>, a stored message adds \<^verbatim>\<open>'last_sent'\<close> and
  \<^verbatim>\<open>'last_message_id'\<close>. Python's \<^verbatim>\<open>None\<close> is \<open>None\<close>. Times are seconds since the
  epoch, as exact numbers.
\<close>

record message_fields =
  msg_text :: "string option"
  media :: "string option"
  media_type :: "string option"
  buttons :: "button list"
  interval :: "int option"
  delete_previous :: bool
  pin_message :: bool

record session = message_fields +
  chat_id :: "string option"

record item = message_fields +
  last_sent :: real
  last_message_id :: "int option"

text \<open>
  \<^verbatim>\<open>BotStorage.data\<close>, the five dictionaries keyed by the group's id. A session's chat id
  can still be \<^verbatim>\<open>None\<close> when it is saved, so the keys of \<open>recurring_messages\<close> are
  optional texts.
\<close>

record bot_data =
  recurring_messages :: "(string option, item list) dict"
  banned_words :: "(string, string list) dict"
  block_links :: "(string, bool) dict"
  block_mentions :: "(string, bool) dict"
  auto_replies :: "(string, (string, string) dict) dict"

text \<open>The steps of the wizard: the values of \<^verbatim>\<open>context.user_data['state']\<close>.\<close>

datatype wizard_state =
    waiting_chatid
  | waiting_text
  | waiting_media
  | waiting_buttons
  | waiting_delete_option
  | waiting_interval

text \<open>
  The state of the bot: the two attributes of the \<^verbatim>\<open>BotStorage\<close> object, the content of
  the file \<^verbatim>\<open>bot_data.json\<close> (\<open>None\<close> while it does not exist), and the framework's
  \<^verbatim>\<open>user_data\<close>, which holds each user's wizard step.
\<close>

record bot =
  data :: bot_data
  temp_messages :: "(int, session) dict"
  json_file :: "bot_data option"
  user_data :: "(int, wizard_state option) dict"

section \<open>BotStorage\<close>

definition save_data :: "bot \<Rightarrow> bot" where
  "save_data st = st\<lparr>json_file := Some (data st)\<rparr>"

definition get_recurring_messages :: "bot \<Rightarrow> string option \<Rightarrow> item list" where
  "get_recurring_messages st cid = dict_get_or (recurring_messages (data st)) cid []"

definition add_recurring_message :: "bot \<Rightarrow> string option \<Rightarrow> item \<Rightarrow> bot" where
  "add_recurring_message st cid message_data =
     (let d = data st;
          rm = (if \<not> dict_has (recurring_messages d) cid
                then dict_set (recurring_messages d) cid [] else recurring_messages d);
          rm' = dict_set rm cid (dict_get_or rm cid [] @ [message_data])
      in save_data (st\<lparr>data := d\<lparr>recurring_messages := rm'\<rparr>\<rparr>))"

text \<open>\<^verbatim>\<open>list.pop(index)\<close> for an index in range.\<close>

definition list_pop :: "'a list \<Rightarrow> nat \<Rightarrow> 'a list" where
  "list_pop xs i = take i xs @ drop (Suc i) xs"

definition remove_recurring_message :: "bot \<Rightarrow> string option \<Rightarrow> int \<Rightarrow> bot" where
  "remove_recurring_message st cid index =
     (let d = data st
      in case dict_get (recurring_messages d) cid of
           None \<Rightarrow> st
         | Some ms \<Rightarrow>
             if 0 \<le> index \<and> index < int (length ms)
             then save_data (st\<lparr>data := d\<lparr>recurring_messages :=
                    dict_set (recurring_messages d) cid (list_pop ms (nat index))\<rparr>\<rparr>)
             else st)"

definition get_banned_words :: "bot \<Rightarrow> string \<Rightarrow> string list" where
  "get_banned_words st cid = dict_get_or (banned_words (data st)) cid []"

definition add_banned_word :: "bot \<Rightarrow> string \<Rightarrow> string \<Rightarrow> bot" where
  "add_banned_word st cid word =
     (let d = data st;
          bw = (if \<not> dict_has (banned_words d) cid
                then dict_set (banned_words d) cid [] else banned_words d);
          ws = dict_get_or bw cid []
      in if lower word \<notin> set (map lower ws)
         then save_data (st\<lparr>data := d\<lparr>banned_words := dict_set bw cid (ws @ [lower word])\<rparr>\<rparr>)
         else st\<lparr>data := d\<lparr>banned_words := bw\<rparr>\<rparr>)"

definition remove_banned_word :: "bot \<Rightarrow> string \<Rightarrow> string \<Rightarrow> bot" where
  "remove_banned_word st cid word =
     (let d = data st
      in case dict_get (banned_words d) cid of
           None \<Rightarrow> st
         | Some ws \<Rightarrow>
             save_data (st\<lparr>data := d\<lparr>banned_words :=
               dict_set (banned_words d) cid (filter (\<lambda>w. lower w \<noteq> lower word) ws)\<rparr>\<rparr>))"

definition set_block_links :: "bot \<Rightarrow> string \<Rightarrow> bool \<Rightarrow> bot" where
  "set_block_links st cid enabled =
     save_data (st\<lparr>data := (data st)\<lparr>block_links := dict_set (block_links (data st)) cid enabled\<rparr>\<rparr>)"

definition get_block_links :: "bot \<Rightarrow> string \<Rightarrow> bool" where
  "get_block_links st cid = dict_get_or (block_links (data st)) cid False"

definition set_block_mentions :: "bot \<Rightarrow> string \<Rightarrow> bool \<Rightarrow> bot" where
  "set_block_mentions st cid enabled =
     save_data (st\<lparr>data := (data st)\<lparr>block_mentions := dict_set (block_mentions (data st)) cid enabled\<rparr>\<rparr>)"

definition get_block_mentions :: "bot \<Rightarrow> string \<Rightarrow> bool" where
  "get_block_mentions st cid = dict_get_or (block_mentions (data st)) cid False"

definition add_auto_reply :: "bot \<Rightarrow> string \<Rightarrow> string \<Rightarrow> string \<Rightarrow> bot" where
  "add_auto_reply st cid trigger reply =
     (let d = data st;
          ar = (if \<not> dict_has (auto_replies d) cid
                then dict_set (auto_replies d) cid [] else auto_replies d);
          ar' = dict_set ar cid (dict_set (dict_get_or ar cid []) (lower trigger) reply)
      in save_data (st\<lparr>data := d\<lparr>auto_replies := ar'\<rparr>\<rparr>))"

definition remove_auto_reply :: "bot \<Rightarrow> string \<Rightarrow> string \<Rightarrow> bot" where
  "remove_auto_reply st cid trigger =
     (let d = data st
      in case dict_get (auto_replies d) cid of
           None \<Rightarrow> st
         | Some rs \<Rightarrow>
             save_data (st\<lparr>data := d\<lparr>auto_replies :=
               dict_set (auto_replies d) cid (dict_del rs (lower trigger))\<rparr>\<rparr>))"

definition get_auto_replies :: "bot \<Rightarrow> string \<Rightarrow> (string, string) dict" where
  "get_auto_replies st cid = dict_get_or (auto_replies (data st)) cid []"

section \<open>The wizard\<close>

text \<open>
  A handler takes the state of the bot and the update and returns the new state with the
  messages it sends, in order. The wording of a message is not modelled: each distinct
  text of the module is one constructor of \<open>prompt\<close>. A call of the chat platform that
  the module does not guard with \<^verbatim>\<open>try\<close> is taken to return; where the module guards
  the call, both outcomes are modelled.
\<close>

datatype prompt =
    Step1_choose_group
  | Step2_message_text
  | Step3_media
  | Step4_buttons
  | Step7_interval
  | Ask_delete_previous
  | Ask_pin
  | Cancelled
  | Not_group_admin
  | Invalid_chat_id
  | Interval_too_small
  | Not_a_number
  | Unsupported_media
  | No_message_being_created
  | No_message_to_save
  | Message_saved
  | Saved_summary
  | Recurring_menu
  | Recurring_list

datatype out =
    Reply_text prompt
  | Answer prompt
  | Edit_message_text prompt
  | Preview session

text \<open>
  The fields of an update the handlers read: \<^verbatim>\<open>update.message.chat.type\<close> and
  \<^verbatim>\<open>update.effective_user.id\<close>; for a text message \<^verbatim>\<open>update.message.text\<close>; for a media
  message the file ids of \<^verbatim>\<open>update.message.photo\<close> (one per size), of \<^verbatim>\<open>video\<close> and of
  \<^verbatim>\<open>animation\<close>.
\<close>

record update =
  chat_type :: string
  user_id :: int

record text_update = update +
  message_text :: string

record media_update = update +
  photo :: "string list"
  video :: "string option"
  animation :: "string option"

definition get_state :: "bot \<Rightarrow> int \<Rightarrow> wizard_state option" where
  "get_state st uid = (case dict_get (user_data st) uid of None \<Rightarrow> None | Some s \<Rightarrow> s)"

definition set_state :: "bot \<Rightarrow> int \<Rightarrow> wizard_state option \<Rightarrow> bot" where
  "set_state st uid s = st\<lparr>user_data := dict_set (user_data st) uid s\<rparr>"

definition set_session :: "bot \<Rightarrow> int \<Rightarrow> session \<Rightarrow> bot" where
  "set_session st uid s = st\<lparr>temp_messages := dict_set (temp_messages st) uid s\<rparr>"

definition del_session :: "bot \<Rightarrow> int \<Rightarrow> bot" where
  "del_session st uid = st\<lparr>temp_messages := dict_del (temp_messages st) uid\<rparr>"

text \<open>
  \<^verbatim>\<open>is_group_admin\<close>: the status the platform reports for the user in the chat; a failed
  lookup (\<open>None\<close>) is caught and counts as not an administrator.
\<close>

definition is_group_admin :: "(int \<Rightarrow> int \<Rightarrow> string option) \<Rightarrow> int \<Rightarrow> int \<Rightarrow> bool" where
  "is_group_admin get_chat_member uid cid =
     (case get_chat_member cid uid of
        None \<Rightarrow> False
      | Some status \<Rightarrow> status \<in> set [''creator'', ''administrator''])"

text \<open>\<^verbatim>\<open>handle_recurring_action\<close>: the button "Add New Message" opens a fresh session.\<close>

definition new_session :: session where
  "new_session =
     \<lparr>msg_text = None, media = None, media_type = None, buttons = [], interval = None,
      delete_previous = False, pin_message = False, chat_id = None\<rparr>"

definition handle_recurring_action :: "bot \<Rightarrow> int \<Rightarrow> string \<Rightarrow> bot \<times> out list" where
  "handle_recurring_action st uid action =
     (if action = ''recurring_add''
      then (set_state (set_session st uid new_session) uid (Some waiting_chatid),
            [Edit_message_text Step1_choose_group])
      else if action = ''recurring_list'' then (st, [Edit_message_text Recurring_list])
      else (st, []))"

definition show_recurring_menu :: "bot \<Rightarrow> bot \<times> out list" where
  "show_recurring_menu st = (st, [Edit_message_text Recurring_menu])"

definition handle_delete_option :: "bot \<Rightarrow> int \<Rightarrow> bool \<Rightarrow> bot \<times> out list" where
  "handle_delete_option st uid delete =
     (case dict_get (temp_messages st) uid of
        None \<Rightarrow> (st, [Answer No_message_being_created])
      | Some s \<Rightarrow> (set_session st uid (s\<lparr>delete_previous := delete\<rparr>), [Edit_message_text Ask_pin]))"

definition handle_pin_option :: "bot \<Rightarrow> int \<Rightarrow> bool \<Rightarrow> bot \<times> out list" where
  "handle_pin_option st uid pin =
     (case dict_get (temp_messages st) uid of
        None \<Rightarrow> (st, [Answer No_message_being_created])
      | Some s \<Rightarrow>
          (set_state (set_session st uid (s\<lparr>pin_message := pin\<rparr>)) uid (Some waiting_interval),
           [Edit_message_text Step7_interval]))"

text \<open>
  \<^verbatim>\<open>show_preview\<close> renders the session to the user and changes nothing.
\<close>

definition show_preview :: "bot \<Rightarrow> int \<Rightarrow> out list" where
  "show_preview st uid =
     (case dict_get (temp_messages st) uid of None \<Rightarrow> [] | Some s \<Rightarrow> [Preview s])"

text \<open>
  The button lines of the step \<^verbatim>\<open>'waiting_buttons'\<close>: a line that holds \<^verbatim>\<open>|\<close> is split
  at the first one and both parts are stripped; any other line is passed over.
\<close>

fun parse_buttons :: "string list \<Rightarrow> button list" where
  "parse_buttons [] = []"
| "parse_buttons (line # lines) =
     (if str_in ''|'' line
      then (case split_first CHR ''|'' line of
              (b_text, b_url) \<Rightarrow> \<lparr>btn_text = strip b_text, btn_url = strip b_url\<rparr> # parse_buttons lines)
      else parse_buttons lines)"

text \<open>
  The branch \<^verbatim>\<open>'waiting_chatid'\<close> of \<^verbatim>\<open>handle_text_input\<close>. It runs inside a \<^verbatim>\<open>try\<close>
  whose handler catches every exception and answers "Invalid chat ID": a text that
  \<^verbatim>\<open>int\<close> refuses, and a reply that fails (\<open>reply_ok\<close> false), end there.
\<close>

definition step_chatid ::
  "(int \<Rightarrow> int \<Rightarrow> string option) \<Rightarrow> bool \<Rightarrow> bot \<Rightarrow> int \<Rightarrow> session \<Rightarrow> string \<Rightarrow> bot \<times> out list" where
  "step_chatid get_chat_member reply_ok st uid s txt =
     (case py_int txt of
        None \<Rightarrow> (st, [Reply_text Invalid_chat_id])
      | Some cid \<Rightarrow>
          if \<not> is_group_admin get_chat_member uid cid
          then (st, Reply_text Not_group_admin # (if reply_ok then [] else [Reply_text Invalid_chat_id]))
          else (let st1 = set_session st uid (s\<lparr>chat_id := Some (str_int cid)\<rparr>)
                in if reply_ok
                   then (set_state st1 uid (Some waiting_text), [Reply_text Step2_message_text])
                   else (st1, [Reply_text Step2_message_text, Reply_text Invalid_chat_id])))"

text \<open>The branch \<^verbatim>\<open>'waiting_text'\<close>.\<close>

definition step_text :: "bot \<Rightarrow> int \<Rightarrow> session \<Rightarrow> string \<Rightarrow> bot \<times> out list" where
  "step_text st uid s txt =
     (let st1 = (if lower txt \<noteq> ''skip'' then set_session st uid (s\<lparr>msg_text := Some txt\<rparr>) else st)
      in (set_state st1 uid (Some waiting_media), [Reply_text Step3_media]))"

text \<open>
  The branch \<^verbatim>\<open>'waiting_buttons'\<close>. Nothing in its \<^verbatim>\<open>try\<close> block can raise, so its
  handler ("Invalid button format!") is never reached.
\<close>

definition step_buttons :: "bot \<Rightarrow> int \<Rightarrow> session \<Rightarrow> string \<Rightarrow> bot \<times> out list" where
  "step_buttons st uid s txt =
     (let bs = (if lower txt = ''skip'' then []
                else parse_buttons (split_on CHR 0x0A (strip txt)));
          st1 = set_session st uid (s\<lparr>buttons := bs\<rparr>)
      in (set_state st1 uid (Some waiting_delete_option), [Reply_text Ask_delete_previous]))"

text \<open>The branch \<^verbatim>\<open>'waiting_interval'\<close>.\<close>

definition step_interval :: "bot \<Rightarrow> int \<Rightarrow> session \<Rightarrow> string \<Rightarrow> bot \<times> out list" where
  "step_interval st uid s txt =
     (case py_int txt of
        None \<Rightarrow> (st, [Reply_text Not_a_number])
      | Some n \<Rightarrow>
          if n < 1 then (st, [Reply_text Interval_too_small])
          else (let st1 = set_session st uid (s\<lparr>interval := Some n\<rparr>)
                in (st1, show_preview st1 uid)))"

text \<open>
  \<^verbatim>\<open>handle_text_input\<close>. The chain of \<^verbatim>\<open>if\<close>/\<^verbatim>\<open>elif\<close> has a branch for four of the six
  steps; in the steps \<^verbatim>\<open>'waiting_media'\<close> and \<^verbatim>\<open>'waiting_delete_option'\<close> a text falls
  through it.
\<close>

definition handle_text_input ::
  "(int \<Rightarrow> int \<Rightarrow> string option) \<Rightarrow> bool \<Rightarrow> bot \<Rightarrow> text_update \<Rightarrow> bot \<times> out list" where
  "handle_text_input get_chat_member reply_ok st u =
     (if chat_type u \<noteq> ''private'' then (st, [])
      else (let uid = user_id u
            in case get_state st uid of
                 None \<Rightarrow> (st, [])
               | Some state \<Rightarrow>
                  (case dict_get (temp_messages st) uid of
                     None \<Rightarrow> (st, [])
                   | Some s \<Rightarrow>
                      (let txt = message_text u
                       in if txt = ''/cancel''
                          then (set_state (del_session st uid) uid None, [Reply_text Cancelled])
                          else if state = waiting_chatid
                          then step_chatid get_chat_member reply_ok st uid s txt
                          else if state = waiting_text then step_text st uid s txt
                          else if state = waiting_buttons then step_buttons st uid s txt
                          else if state = waiting_interval then step_interval st uid s txt
                          else (st, [])))))"

text \<open>\<^verbatim>\<open>handle_media_input\<close>.\<close>

definition handle_media_input :: "bot \<Rightarrow> media_update \<Rightarrow> bot \<times> out list" where
  "handle_media_input st u =
     (if chat_type u \<noteq> ''private'' then (st, [])
      else (let uid = user_id u
            in if get_state st uid \<noteq> Some waiting_media then (st, [])
               else (case dict_get (temp_messages st) uid of
                       None \<Rightarrow> (st, [])
                     | Some s \<Rightarrow>
                        (let picked =
                               (if photo u \<noteq> [] then Some (last (photo u), ''photo'')
                                else (case video u of
                                        Some f \<Rightarrow> Some (f, ''video'')
                                      | None \<Rightarrow>
                                         (case animation u of
                                            Some f \<Rightarrow> Some (f, ''animation'')
                                          | None \<Rightarrow> None)))
                         in case picked of
                              None \<Rightarrow> (st, [Reply_text Unsupported_media])
                            | Some (file_id, mtype) \<Rightarrow>
                               (set_state
                                  (set_session st uid (s\<lparr>media := Some file_id, media_type := Some mtype\<rparr>))
                                  uid (Some waiting_buttons),
                                [Reply_text Step4_buttons])))))"

text \<open>\<^verbatim>\<open>confirm_save_message\<close>, the button "Save Message" of the preview.\<close>

definition confirm_save_message :: "bot \<Rightarrow> int \<Rightarrow> bot \<times> out list" where
  "confirm_save_message st uid =
     (case dict_get (temp_messages st) uid of
        None \<Rightarrow> (st, [Answer No_message_to_save])
      | Some msg_data \<Rightarrow>
          (let recurring_data =
                 \<lparr>msg_text = msg_text msg_data, media = media msg_data,
                  media_type = media_type msg_data, buttons = buttons msg_data,
                  interval = interval msg_data, delete_previous = delete_previous msg_data,
                  pin_message = pin_message msg_data, last_sent = 0, last_message_id = None\<rparr>;
               st1 = add_recurring_message st (chat_id msg_data) recurring_data;
               st2 = set_state (del_session st1 uid) uid None
           in (st2, [Answer Message_saved, Reply_text Saved_summary, Edit_message_text Recurring_menu])))"

section \<open>The moderation filter\<close>

text \<open>
  \<^verbatim>\<open>filter_message\<close> reads the storage and acts on the chat; it changes no state of the
  bot. Its result is the list of the calls it makes, in order. The reason of a deletion
  is one of three texts of the module ("links", "mentions", "banned word").
\<close>

datatype reason = Links | Mentions | Banned_word

datatype filter_event =
    Reply_markdown string
  | Reply_plain string
  | Delete_message
  | Send_warning string reason
  | Sleep nat
  | Delete_warning
  | Print_delete_error

text \<open>
  A message of a chat: \<^verbatim>\<open>update.effective_chat.id\<close>, \<^verbatim>\<open>message.text\<close> and
  \<^verbatim>\<open>message.caption\<close>.
\<close>

record chat_message = update +
  effective_chat_id :: int
  m_text :: "string option"
  m_caption :: "string option"

text \<open>
  What the platform answers to the guarded calls of \<^verbatim>\<open>filter_message\<close>: the sender's
  status (\<open>None\<close> when the lookup fails), whether the reply with Markdown goes through,
  whether the message can be deleted and whether the warning can be sent.
\<close>

record filter_env =
  member_status :: "string option"
  markdown_ok :: bool
  msg_delete_ok :: bool
  warning_ok :: bool

text \<open>\<^verbatim>\<open>message.text or message.caption or ""\<close>\<close>

definition text_or_caption :: "string option \<Rightarrow> string option \<Rightarrow> string" where
  "text_or_caption t c =
     (if truthy_str t then (case t of Some x \<Rightarrow> x | None \<Rightarrow> [])
      else if truthy_str c then (case c of Some x \<Rightarrow> x | None \<Rightarrow> [])
      else [])"

text \<open>
  The loop over the auto replies: the first trigger that occurs in the lower-cased text
  is answered, with Markdown and, when that fails, once more without; then the loop
  breaks.
\<close>

fun auto_reply_loop :: "bool \<Rightarrow> (string, string) dict \<Rightarrow> string \<Rightarrow> filter_event list" where
  "auto_reply_loop md_ok [] text_lower = []"
| "auto_reply_loop md_ok ((trigger, reply) # rest) text_lower =
     (if str_in trigger text_lower
      then Reply_markdown reply # (if md_ok then [] else [Reply_plain reply])
      else auto_reply_loop md_ok rest text_lower)"

text \<open>The loop over the banned words, which breaks at the first word found.\<close>

fun banned_word_found :: "string list \<Rightarrow> string \<Rightarrow> bool" where
  "banned_word_found [] text_lower = False"
| "banned_word_found (word # ws) text_lower =
     (if str_in word text_lower then True else banned_word_found ws text_lower)"

text \<open>
  The three checks (\<^verbatim>\<open>should_delete\<close> and \<^verbatim>\<open>reason\<close>): \<open>None\<close> is
  \<^verbatim>\<open>should_delete = False\<close>.
\<close>

definition check_links :: "bot \<Rightarrow> string \<Rightarrow> string \<Rightarrow> reason option" where
  "check_links st cid txt =
     (if get_block_links st cid
      then (if re_search url_pattern txt \<or> re_search tg_pattern txt then Some Links else None)
      else None)"

definition check_mentions :: "bot \<Rightarrow> string \<Rightarrow> string \<Rightarrow> reason option \<Rightarrow> reason option" where
  "check_mentions st cid txt r =
     (if get_block_mentions st cid \<and> r = None
      then (if re_search mention_pattern txt then Some Mentions else r)
      else r)"

definition check_banned_words :: "bot \<Rightarrow> string \<Rightarrow> string \<Rightarrow> reason option \<Rightarrow> reason option" where
  "check_banned_words st cid text_lower r =
     (if r = None
      then (if banned_word_found (get_banned_words st cid) text_lower then Some Banned_word else r)
      else r)"

definition check_message :: "bot \<Rightarrow> string \<Rightarrow> string \<Rightarrow> reason option" where
  "check_message st cid txt =
     check_banned_words st cid (lower txt) (check_mentions st cid txt (check_links st cid txt))"

text \<open>
  The deletion: the message is deleted, a warning that names the reason is sent, and
  after three seconds the warning is deleted. A failure of the first two calls is
  printed, one of the last is passed over.
\<close>

definition delete_with_warning :: "filter_env \<Rightarrow> string \<Rightarrow> reason \<Rightarrow> filter_event list" where
  "delete_with_warning env cid r =
     Delete_message #
       (if \<not> msg_delete_ok env then [Print_delete_error]
        else Send_warning cid r #
               (if \<not> warning_ok env then [Print_delete_error] else [Sleep 3, Delete_warning]))"

definition is_admin_user :: "filter_env \<Rightarrow> bool" where
  "is_admin_user env =
     (case member_status env of
        None \<Rightarrow> False
      | Some status \<Rightarrow> status \<in> set [''creator'', ''administrator''])"

definition filter_message :: "filter_env \<Rightarrow> bot \<Rightarrow> chat_message option \<Rightarrow> filter_event list" where
  "filter_message env st upd =
     (case upd of
        None \<Rightarrow> []
      | Some m \<Rightarrow>
          if chat_type m = ''private'' then []
          else (let cid = str_int (effective_chat_id m);
                    txt = text_or_caption (m_text m) (m_caption m);
                    text_lower = lower txt;
                    replies = auto_reply_loop (markdown_ok env) (get_auto_replies st cid) text_lower
                in if is_admin_user env then replies
                   else (case check_message st cid txt of
                           None \<Rightarrow> replies
                         | Some r \<Rightarrow> replies @ delete_with_warning env cid r)))"

text \<open>
  The key of the group and the text that \<^verbatim>\<open>filter_message\<close> works on:
  \<^verbatim>\<open>str(update.effective_chat.id)\<close> and \<^verbatim>\<open>message.text or message.caption or ""\<close>.
\<close>

definition chat_key :: "chat_message \<Rightarrow> string" where
  "chat_key m = str_int (effective_chat_id m)"

definition body_of :: "chat_message \<Rightarrow> string" where
  "body_of m = text_or_caption (m_text m) (m_caption m)"

text \<open>The events that answer the sender: the two forms of the auto reply.\<close>

fun is_reply :: "filter_event \<Rightarrow> bool" where
  "is_reply (Reply_markdown r) = True"
| "is_reply (Reply_plain r) = True"
| "is_reply e = False"

section \<open>The scheduler\<close>

text \<open>
  \<^verbatim>\<open>send_recurring_messages\<close> runs every 30 seconds. For every stored message it reads
  the clock value \<open>now\<close> taken at the start of the run. The calls it makes and the lines
  it prints are its events.
\<close>

type_synonym markup = "button list list option"

datatype sched_event =
    Delete_previous "string option" int
  | Send_photo "string option" string "string option" markup
  | Send_video "string option" string "string option" markup
  | Send_animation "string option" string "string option" markup
  | Send_text "string option" string markup
  | Pin_chat_message "string option" int
  | Print_could_not_delete
  | Print_could_not_pin
  | Print_error_sending

text \<open>
  What the platform answers for one stored message: whether the previous message can be
  deleted, the id of the message sent (\<open>None\<close> when the send call raises), whether the
  new message can be pinned.
\<close>

record transport =
  prev_delete_ok :: bool
  send_result :: "int option"
  pin_ok :: bool

text \<open>\<^verbatim>\<open>InlineKeyboardMarkup(keyboard) if keyboard else None\<close>, one button per row.\<close>

definition reply_markup :: "button list \<Rightarrow> markup" where
  "reply_markup bs = (if map (\<lambda>b. [b]) bs \<noteq> [] then Some (map (\<lambda>b. [b]) bs) else None)"

definition caption_of :: "string option \<Rightarrow> string option" where
  "caption_of t = (if truthy_str t then t else None)"

text \<open>
  The send call the fields of a message select: a media call when \<^verbatim>\<open>media\<close> and
  \<^verbatim>\<open>media_type\<close> are both true and the type is one of the three known, else a text
  call when \<^verbatim>\<open>text\<close> is true. \<open>None\<close>: no branch of the chain makes a call.
\<close>

definition send_call :: "string option \<Rightarrow> item \<Rightarrow> sched_event option" where
  "send_call cid m =
     (if truthy_str (media m) \<and> truthy_str (media_type m)
      then (case media m of
              None \<Rightarrow> None
            | Some f \<Rightarrow>
                if media_type m = Some ''photo''
                then Some (Send_photo cid f (caption_of (msg_text m)) (reply_markup (buttons m)))
                else if media_type m = Some ''video''
                then Some (Send_video cid f (caption_of (msg_text m)) (reply_markup (buttons m)))
                else if media_type m = Some ''animation''
                then Some (Send_animation cid f (caption_of (msg_text m)) (reply_markup (buttons m)))
                else None)
      else if truthy_str (msg_text m)
      then (case msg_text m of
              None \<Rightarrow> None
            | Some t \<Rightarrow> Some (Send_text cid t (reply_markup (buttons m))))
      else None)"

text \<open>
  The body of the \<^verbatim>\<open>try\<close> block for a message that is due. The result is the message
  as it is left in the storage, the events, and whether \<^verbatim>\<open>storage.save_data()\<close> was
  reached.
\<close>

definition delete_previous_events :: "transport \<Rightarrow> string option \<Rightarrow> item \<Rightarrow> sched_event list" where
  "delete_previous_events tr cid m =
     (if delete_previous m \<and> truthy_id (last_message_id m)
      then (case last_message_id m of
              None \<Rightarrow> []
            | Some mid \<Rightarrow>
                Delete_previous cid mid # (if prev_delete_ok tr then [] else [Print_could_not_delete]))
      else [])"

definition pin_events :: "transport \<Rightarrow> string option \<Rightarrow> item \<Rightarrow> int \<Rightarrow> sched_event list" where
  "pin_events tr cid m mid =
     (if pin_message m
      then Pin_chat_message cid mid # (if pin_ok tr then [] else [Print_could_not_pin])
      else [])"

definition try_send :: "transport \<Rightarrow> real \<Rightarrow> string option \<Rightarrow> item \<Rightarrow> item \<times> sched_event list \<times> bool" where
  "try_send tr now cid m =
     (case send_call cid m of
        None \<Rightarrow> (m\<lparr>last_sent := now\<rparr>, delete_previous_events tr cid m, True)
      | Some c \<Rightarrow>
          (case send_result tr of
             None \<Rightarrow> (m, delete_previous_events tr cid m @ [c, Print_error_sending], False)
           | Some mid \<Rightarrow>
               (m\<lparr>last_message_id := Some mid, last_sent := now\<rparr>,
                delete_previous_events tr cid m @ [c] @ pin_events tr cid m mid, True)))"

text \<open>
  One round of the inner loop. \<open>None\<close> is the \<^verbatim>\<open>TypeError\<close> of
  \<^verbatim>\<open>msg_data["interval"] * 60\<close> for an interval that is \<^verbatim>\<open>None\<close>; it is raised
  outside the \<^verbatim>\<open>try\<close> block and ends the run.
\<close>

definition send_item ::
  "transport \<Rightarrow> real \<Rightarrow> string option \<Rightarrow> item \<Rightarrow> (item \<times> sched_event list \<times> bool) option" where
  "send_item tr now cid m =
     (case interval m of
        None \<Rightarrow> None
      | Some n \<Rightarrow>
          (let interval_seconds = n * 60
           in if now - last_sent m \<ge> real_of_int interval_seconds
              then Some (try_send tr now cid m)
              else Some (m, [], False)))"

text \<open>
  The loops run over the dictionary and its lists in order; the message is changed in
  place, and \<^verbatim>\<open>save_data\<close> writes the whole of \<^verbatim>\<open>storage.data\<close> to the file.
\<close>

definition put_item :: "bot \<Rightarrow> nat \<Rightarrow> nat \<Rightarrow> item \<Rightarrow> bot" where
  "put_item st i j m =
     (let rm = recurring_messages (data st)
      in st\<lparr>data := (data st)\<lparr>recurring_messages :=
              rm[i := (fst (rm ! i), (snd (rm ! i))[j := m])]\<rparr>\<rparr>)"

definition process_item ::
  "transport \<Rightarrow> real \<Rightarrow> bot \<Rightarrow> nat \<Rightarrow> nat \<Rightarrow> (bot \<times> sched_event list) option" where
  "process_item tr now st i j =
     (let rm = recurring_messages (data st)
      in if i < length rm \<and> j < length (snd (rm ! i))
         then (case send_item tr now (fst (rm ! i)) (snd (rm ! i) ! j) of
                 None \<Rightarrow> None
               | Some (m', evs, saved) \<Rightarrow>
                   Some (if saved then save_data (put_item st i j m') else put_item st i j m', evs))
         else Some (st, []))"

text \<open>
  The run over a list of positions (entry of the dictionary, index in its list). The
  result is the state, the events, and whether the run ended with the \<^verbatim>\<open>TypeError\<close>.
\<close>

fun run_items ::
  "(nat \<Rightarrow> nat \<Rightarrow> transport) \<Rightarrow> real \<Rightarrow> (nat \<times> nat) list \<Rightarrow> bot \<Rightarrow> bot \<times> sched_event list \<times> bool" where
  "run_items env now [] st = (st, [], False)"
| "run_items env now ((i, j) # ps) st =
     (case process_item (env i j) now st i j of
        None \<Rightarrow> (st, [], True)
      | Some (st1, evs) \<Rightarrow>
          (case run_items env now ps st1 of (st2, evs2, raised) \<Rightarrow> (st2, evs @ evs2, raised)))"

definition positions :: "bot \<Rightarrow> (nat \<times> nat) list" where
  "positions st =
     concat (map (\<lambda>i. map (\<lambda>j. (i, j)) [0 ..< length (snd (recurring_messages (data st) ! i))])
                 [0 ..< length (recurring_messages (data st))])"

definition send_recurring_messages ::
  "(nat \<Rightarrow> nat \<Rightarrow> transport) \<Rightarrow> real \<Rightarrow> bot \<Rightarrow> bot \<times> sched_event list \<times> bool" where
  "send_recurring_messages env now st = run_items env now (positions st) st"

text \<open>
  Reading the storage at a position: the group of the \<open>i\<close>-th entry of the dictionary and
  the \<open>j\<close>-th message of its list. An event is a send call when it is one of the four
  calls that post the message.
\<close>

definition chat_at :: "bot \<Rightarrow> nat \<Rightarrow> string option option" where
  "chat_at st i =
     (let rm = recurring_messages (data st)
      in if i < length rm then Some (fst (rm ! i)) else None)"

definition item_at :: "bot \<Rightarrow> nat \<Rightarrow> nat \<Rightarrow> item option" where
  "item_at st i j =
     (let rm = recurring_messages (data st)
      in if i < length rm \<and> j < length (snd (rm ! i)) then Some (snd (rm ! i) ! j) else None)"

fun is_send :: "sched_event \<Rightarrow> bool" where
  "is_send (Send_photo c f t k) = True"
| "is_send (Send_video c f t k) = True"
| "is_send (Send_animation c f t k) = True"
| "is_send (Send_text c t k) = True"
| "is_send e = False"

text \<open>
  The lengths of the lists of the dictionary. A run changes messages in place, so it
  leaves them as they are.
\<close>

definition shape :: "bot \<Rightarrow> nat list" where
  "shape st = map (\<lambda>e. length (snd e)) (recurring_messages (data st))"

text \<open>
  The order of the two loops: the positions the run visits before the \<open>j\<close>-th message of
  the \<open>i\<close>-th entry, and those it visits after it.
\<close>

definition positions_before :: "bot \<Rightarrow> nat \<Rightarrow> nat \<Rightarrow> (nat \<times> nat) list" where
  "positions_before st i j =
     concat (map (\<lambda>i'. map (\<lambda>j'. (i', j')) [0 ..< length (snd (recurring_messages (data st) ! i'))])
                 [0 ..< i])
     @ map (\<lambda>j'. (i, j')) [0 ..< j]"

definition positions_after :: "bot \<Rightarrow> nat \<Rightarrow> nat \<Rightarrow> (nat \<times> nat) list" where
  "positions_after st i j =
     map (\<lambda>j'. (i, j')) [Suc j ..< length (snd (recurring_messages (data st) ! i))]
     @ concat (map (\<lambda>i'. map (\<lambda>j'. (i', j')) [0 ..< length (snd (recurring_messages (data st) ! i'))])
                   [Suc i ..< length (recurring_messages (data st))])"

text \<open>
  The message at a position has an interval: the run passes it without the
  \<^verbatim>\<open>TypeError\<close>.
\<close>

definition has_interval :: "bot \<Rightarrow> nat \<times> nat \<Rightarrow> bool" where
  "has_interval st p =
     (case item_at st (fst p) (snd p) of None \<Rightarrow> False | Some m \<Rightarrow> interval m \<noteq> None)"

text \<open>The message at a position in the file, as the last \<^verbatim>\<open>save_data\<close> wrote it.\<close>

definition file_item_at :: "bot \<Rightarrow> nat \<Rightarrow> nat \<Rightarrow> item option" where
  "file_item_at st i j =
     (case json_file st of
        None \<Rightarrow> None
      | Some d \<Rightarrow>
          (let rm = recurring_messages d
           in if i < length rm \<and> j < length (snd (rm ! i)) then Some (snd (rm ! i) ! j) else None))"

section \<open>The initial state\<close>

text \<open>
  \<^verbatim>\<open>BotStorage.__init__\<close> when no file \<^verbatim>\<open>bot_data.json\<close> exists: five empty dictionaries
  and no session.
\<close>

definition empty_data :: bot_data where
  "empty_data =
     \<lparr>recurring_messages = [], banned_words = [], block_links = [], block_mentions = [],
      auto_replies = []\<rparr>"

definition initial_bot :: bot where
  "initial_bot = \<lparr>data = empty_data, temp_messages = [], json_file = None, user_data = []\<rparr>"

text \<open>The initial state with one open session: user \<open>uid\<close> is at step \<open>w\<close> with session \<open>s\<close>.\<close>

definition bot_with_session :: "int \<Rightarrow> wizard_state \<Rightarrow> session \<Rightarrow> bot" where
  "bot_with_session uid w s =
     \<lparr>data = empty_data, temp_messages = [(uid, s)], json_file = None, user_data = [(uid, Some w)]\<rparr>"

text \<open>The initial state with the stored messages \<open>rm\<close>.\<close>

definition bot_with_items :: "(string option, item list) dict \<Rightarrow> bot" where
  "bot_with_items rm =
     \<lparr>data = empty_data\<lparr>recurring_messages := rm\<rparr>, temp_messages = [], json_file = None,
      user_data = []\<rparr>"

section \<open>Facts about the text primitives and the dictionaries\<close>

lemmas text_eval =
  py_ord_def lower_def lower_char_def upper_char_def char_of_def bit_Suc_0_iff is_space_def strip_def
  split_first_def str_int_def str_nat.simps is_digit_def is_int_space_def digits_value_def
  py_int_def

lemmas re_eval =
  Plus_def Opt_def ignorecase_def in_range_def hex_digit_def url_unit_def url_pattern_def
  tg_pattern_def word_char_def mention_pattern_def

lemmas storage_eval =
  Let_def initial_bot_def empty_data_def save_data_def dict_has_def dict_get_or_def
  get_recurring_messages_def add_recurring_message_def get_banned_words_def add_banned_word_def
  remove_banned_word_def get_block_links_def set_block_links_def get_block_mentions_def
  set_block_mentions_def get_auto_replies_def add_auto_reply_def remove_auto_reply_def

lemma py_ord_lt: "py_ord c < 256"
  by (simp add: py_ord_def)

lemma py_ord_char_of: "n < 256 \<Longrightarrow> py_ord (char_of n) = n"
  by (simp add: py_ord_def)

lemma lower_char_idem: "lower_char (lower_char c) = lower_char c"
  using py_ord_lt [of c] by (auto simp: lower_char_def py_ord_char_of)

lemma lower_idem: "lower (lower w) = lower w"
  by (simp add: lower_def lower_char_idem)

lemma dict_get_set_same: "dict_get (dict_set d k v) k = Some v"
  by (induction d) auto

lemma dict_get_set_other: "k' \<noteq> k \<Longrightarrow> dict_get (dict_set d k v) k' = dict_get d k'"
  by (induction d) auto

lemma dict_set_same_value: "dict_get d k = Some v \<Longrightarrow> dict_set d k v = d"
  by (induction d) (auto split: if_splits)

section \<open>Banned words\<close>

lemma get_banned_words_add:
  "get_banned_words (add_banned_word st cid word) cid =
     (if lower word \<in> set (map lower (get_banned_words st cid)) then get_banned_words st cid
      else get_banned_words st cid @ [lower word])"
  by (auto simp: get_banned_words_def add_banned_word_def save_data_def dict_get_or_def dict_has_def
        Let_def dict_get_set_same split: option.splits)

lemma add_banned_word_noop:
  "lower word \<in> set (map lower (get_banned_words st cid)) \<Longrightarrow> add_banned_word st cid word = st"
  by (auto simp: get_banned_words_def add_banned_word_def dict_get_or_def dict_has_def
        Let_def split: option.splits)

lemma get_banned_words_remove:
  "get_banned_words (remove_banned_word st cid word) cid =
     filter (\<lambda>w. lower w \<noteq> lower word) (get_banned_words st cid)"
  by (auto simp: get_banned_words_def remove_banned_word_def save_data_def dict_get_or_def
        Let_def dict_get_set_same split: option.splits)

lemma lower_mem_map_lower: "lower word \<in> set ws \<Longrightarrow> lower word \<in> set (map lower ws)"
proof -
  assume "lower word \<in> set ws"
  then have "lower (lower word) \<in> lower ` set ws" by (rule imageI)
  then show ?thesis by (simp add: lower_idem)
qed

text \<open>
  Claim C6. For every group and every word in any letter case: \<^verbatim>\<open>add_banned_word\<close>
  appends the lower-cased word when no stored word equals it up to case; it changes
  nothing at all (no duplicate, no write of the file) when the lower-cased word is
  already stored; a list without duplicates stays without duplicates; and on a group
  with no banned words, adding a word and then removing it in any other letter case
  leaves the list of the group empty.
\<close>

theorem banned_word_add_remove:
  "(lower word \<notin> set (map lower (get_banned_words st cid)) \<longrightarrow>
      get_banned_words (add_banned_word st cid word) cid = get_banned_words st cid @ [lower word])
   \<and> (lower word \<in> set (get_banned_words st cid) \<longrightarrow> add_banned_word st cid word = st)
   \<and> (distinct (get_banned_words st cid) \<longrightarrow>
        distinct (get_banned_words (add_banned_word st cid word) cid))
   \<and> (get_banned_words st cid = [] \<and> lower word' = lower word \<longrightarrow>
        get_banned_words (remove_banned_word (add_banned_word st cid word) cid word') cid = [])"
proof (intro conjI impI)
  assume "lower word \<notin> set (map lower (get_banned_words st cid))"
  then show "get_banned_words (add_banned_word st cid word) cid
               = get_banned_words st cid @ [lower word]"
    by (simp add: get_banned_words_add)
next
  assume "lower word \<in> set (get_banned_words st cid)"
  then have "lower word \<in> set (map lower (get_banned_words st cid))"
    by (rule lower_mem_map_lower)
  then show "add_banned_word st cid word = st"
    by (rule add_banned_word_noop)
next
  assume d: "distinct (get_banned_words st cid)"
  show "distinct (get_banned_words (add_banned_word st cid word) cid)"
  proof (cases "lower word \<in> set (map lower (get_banned_words st cid))")
    case True
    with d show ?thesis by (simp add: get_banned_words_add)
  next
    case False
    then have "lower word \<notin> set (get_banned_words st cid)"
      using lower_mem_map_lower by blast
    with d False show ?thesis by (simp add: get_banned_words_add)
  qed
next
  assume "get_banned_words st cid = [] \<and> lower word' = lower word"
  then show "get_banned_words (remove_banned_word (add_banned_word st cid word) cid word') cid = []"
    by (simp add: get_banned_words_remove get_banned_words_add lower_idem)
qed

theorem banned_word_add_remove_witness:
  "get_banned_words (add_banned_word initial_bot ''-100123'' ''Scam'') ''-100123'' = [''scam'']
   \<and> add_banned_word (add_banned_word initial_bot ''-100123'' ''Scam'') ''-100123'' ''SCAM''
       = add_banned_word initial_bot ''-100123'' ''Scam''
   \<and> distinct (get_banned_words (add_banned_word (add_banned_word initial_bot ''-100123'' ''Scam'')
        ''-100123'' ''sCAM'') ''-100123'')
   \<and> get_banned_words (remove_banned_word (add_banned_word initial_bot ''-100123'' ''Scam'')
        ''-100123'' ''SCAM'') ''-100123'' = []"
  using banned_word_add_remove [of "''Scam''" initial_bot "''-100123''" "''SCAM''"]
    banned_word_add_remove [of "''SCAM''" "add_banned_word initial_bot ''-100123'' ''Scam''"
      "''-100123''" "''scam''"]
  by (simp add: storage_eval text_eval)

section \<open>The steps of the wizard\<close>

lemmas wizard_eval =
  bot_with_session_def new_session_def get_state_def set_state_def set_session_def del_session_def
  handle_text_input_def step_text_def step_buttons_def step_interval_def step_chatid_def
  handle_media_input_def confirm_save_message_def show_preview_def is_group_admin_def
  handle_recurring_action_def handle_delete_option_def handle_pin_option_def show_recurring_menu_def

lemma dict_get_del_same: "dict_get (dict_del d k) k = None"
  by (induction d) auto

lemma dict_get_del_other: "k' \<noteq> k \<Longrightarrow> dict_get (dict_del d k) k' = dict_get d k'"
  by (induction d) auto

subsection \<open>The step \<^verbatim>\<open>'waiting_text'\<close>\<close>

lemma handle_text_input_waiting_text:
  assumes "chat_type u = ''private''"
    and "get_state st (user_id u) = Some waiting_text"
    and "dict_get (temp_messages st) (user_id u) = Some s"
    and "message_text u \<noteq> ''/cancel''"
  shows "handle_text_input g ok st u = step_text st (user_id u) s (message_text u)"
  using assms by (simp add: handle_text_input_def Let_def)

lemma step_text_result:
  "step_text st uid s txt = (st', out) \<Longrightarrow>
     get_state st' uid = Some waiting_media
     \<and> dict_get (temp_messages st') uid
         = (if lower txt = ''skip'' then dict_get (temp_messages st) uid
            else Some (s\<lparr>msg_text := Some txt\<rparr>))
     \<and> data st' = data st \<and> json_file st' = json_file st
     \<and> out = [Reply_text Step3_media]"
  by (auto simp: step_text_def get_state_def set_state_def set_session_def Let_def dict_get_set_same
      split: if_splits)

text \<open>
  Claim C8, as the module has it. For every session at the step \<^verbatim>\<open>'waiting_text'\<close> and
  every text message of the private chat other than the command \<^verbatim>\<open>/cancel\<close>: when the
  text is \<^verbatim>\<open>skip\<close> in any letter case, the session is left as it is (its text field
  stays unset); any other text is stored in the text field as it was sent; in both cases
  the step becomes \<^verbatim>\<open>'waiting_media'\<close>, the prompt for the media is sent, and the stored
  data and the file are not touched.
\<close>

theorem waiting_text_step:
  assumes "chat_type u = ''private''"
    and "get_state st (user_id u) = Some waiting_text"
    and "dict_get (temp_messages st) (user_id u) = Some s"
    and "message_text u \<noteq> ''/cancel''"
    and "handle_text_input g ok st u = (st', out)"
  shows "get_state st' (user_id u) = Some waiting_media
     \<and> dict_get (temp_messages st') (user_id u)
         = Some (if lower (message_text u) = ''skip'' then s
                 else s\<lparr>msg_text := Some (message_text u)\<rparr>)
     \<and> data st' = data st \<and> json_file st' = json_file st
     \<and> out = [Reply_text Step3_media]"
  using step_text_result [of st "user_id u" s "message_text u" st' out]
    handle_text_input_waiting_text [OF assms(1-4), of g ok] assms(3,5)
  by auto

theorem waiting_text_step_witness:
  "get_state
     (fst (handle_text_input (\<lambda>c u. None) True (bot_with_session 7 waiting_text new_session)
        \<lparr>chat_type = ''private'', user_id = 7, message_text = ''*Hello* [x](y)''\<rparr>)) 7
     = Some waiting_media
   \<and> dict_get (temp_messages
       (fst (handle_text_input (\<lambda>c u. None) True (bot_with_session 7 waiting_text new_session)
          \<lparr>chat_type = ''private'', user_id = 7, message_text = ''*Hello* [x](y)''\<rparr>))) 7
     = Some (new_session\<lparr>msg_text := Some ''*Hello* [x](y)''\<rparr>)"
  using waiting_text_step [of "\<lparr>chat_type = ''private'', user_id = 7, message_text = ''*Hello* [x](y)''\<rparr>"
      "bot_with_session 7 waiting_text new_session" new_session "\<lambda>c u. None" True
      "fst (handle_text_input (\<lambda>c u. None) True (bot_with_session 7 waiting_text new_session)
        \<lparr>chat_type = ''private'', user_id = 7, message_text = ''*Hello* [x](y)''\<rparr>)"
      "snd (handle_text_input (\<lambda>c u. None) True (bot_with_session 7 waiting_text new_session)
        \<lparr>chat_type = ''private'', user_id = 7, message_text = ''*Hello* [x](y)''\<rparr>)"]
  by (simp add: wizard_eval text_eval)

text \<open>
  The claim as the specification words it fails: the text \<^verbatim>\<open>Skip\<close> is not the literal
  \<^verbatim>\<open>skip\<close>, and the module does not store it; the text field of the session stays
  unset.
\<close>

theorem waiting_text_skip_counterexample:
  "''Skip'' \<noteq> ''skip''
   \<and> handle_text_input (\<lambda>c u. None) True (bot_with_session 7 waiting_text new_session)
        \<lparr>chat_type = ''private'', user_id = 7, message_text = ''Skip''\<rparr>
      = (bot_with_session 7 waiting_media new_session, [Reply_text Step3_media])
   \<and> msg_text new_session = None"
  by (simp add: wizard_eval text_eval)

subsection \<open>The step \<^verbatim>\<open>'waiting_buttons'\<close>\<close>

lemma str_in_bar: "str_in ''|'' l \<longleftrightarrow> CHR ''|'' \<in> set l"
  by (induction l) auto

lemma parse_buttons_eq:
  "parse_buttons lines =
     map (\<lambda>l. \<lparr>btn_text = strip (takeWhile (\<lambda>c. c \<noteq> CHR ''|'') l),
               btn_url = strip (drop 1 (dropWhile (\<lambda>c. c \<noteq> CHR ''|'') l))\<rparr>)
         (filter (\<lambda>l. CHR ''|'' \<in> set l) lines)"
  by (induction lines) (simp_all add: str_in_bar split_first_def)

lemma split_on_subset: "l \<in> set (split_on sep s) \<Longrightarrow> set l \<subseteq> set s"
proof (induction s arbitrary: l)
  case Nil
  then show ?case by simp
next
  case (Cons c cs)
  show ?case
  proof (cases "c = sep")
    case True
    with Cons show ?thesis by auto
  next
    case False
    obtain w ws where ws: "split_on sep cs = w # ws"
      by (cases "split_on sep cs") (cases cs, auto split: if_splits list.splits)
    with False Cons.prems have "l = c # w \<or> l \<in> set ws" by auto
    then show ?thesis
      using Cons.IH [of w] Cons.IH [of l] ws by auto
  qed
qed

lemma set_strip: "set (strip s) \<subseteq> set s"
proof -
  have "set (strip s) = set (dropWhile is_space (rev (dropWhile is_space s)))"
    by (simp add: strip_def)
  also have "\<dots> \<subseteq> set (rev (dropWhile is_space s))"
    using set_dropWhileD by fastforce
  also have "\<dots> \<subseteq> set s"
    using set_dropWhileD by fastforce
  finally show ?thesis .
qed

lemma skip_has_no_bar: "lower txt = ''skip'' \<Longrightarrow> CHR ''|'' \<notin> set txt"
proof
  assume l: "lower txt = ''skip''" and m: "CHR ''|'' \<in> set txt"
  from m have "lower_char CHR ''|'' \<in> set (map lower_char txt)"
    by simp
  then have "lower_char CHR ''|'' \<in> set ''skip''"
    using l by (simp only: lower_def)
  then show False
    by (simp add: text_eval)
qed

lemma no_bar_no_buttons:
  "CHR ''|'' \<notin> set txt \<Longrightarrow> parse_buttons (split_on sep (strip txt)) = []"
proof -
  assume nb: "CHR ''|'' \<notin> set txt"
  have "\<forall>l\<in>set (split_on sep (strip txt)). CHR ''|'' \<notin> set l"
    using split_on_subset set_strip nb by blast
  then show ?thesis
    by (simp add: parse_buttons_eq filter_False)
qed

lemma handle_text_input_waiting_buttons:
  assumes "chat_type u = ''private''"
    and "get_state st (user_id u) = Some waiting_buttons"
    and "dict_get (temp_messages st) (user_id u) = Some s"
    and "message_text u \<noteq> ''/cancel''"
  shows "handle_text_input g ok st u = step_buttons st (user_id u) s (message_text u)"
  using assms by (simp add: handle_text_input_def Let_def)

lemma step_buttons_result:
  "step_buttons st uid s txt = (st', out) \<Longrightarrow>
     get_state st' uid = Some waiting_delete_option
     \<and> dict_get (temp_messages st') uid
         = Some (s\<lparr>buttons := parse_buttons (split_on CHR 0x0A (strip txt))\<rparr>)
     \<and> data st' = data st \<and> json_file st' = json_file st
     \<and> out = [Reply_text Ask_delete_previous]"
  by (auto simp: step_buttons_def get_state_def set_state_def set_session_def Let_def
        dict_get_set_same no_bar_no_buttons skip_has_no_bar split: if_splits)

text \<open>
  Claim C9. For every session at the step \<^verbatim>\<open>'waiting_buttons'\<close> and every text message
  of the private chat (the command \<^verbatim>\<open>/cancel\<close>, which is the wizard's cancel action in
  every step, apart): the text is stripped and split at the newlines; every line that
  holds \<^verbatim>\<open>|\<close> gives one button, its label the part before the first \<^verbatim>\<open>|\<close> and its URL
  the part after it, both stripped; every other line is dropped and nothing is
  reported; the literal \<^verbatim>\<open>skip\<close> gives the empty list; and whatever the text, the step
  becomes \<^verbatim>\<open>'waiting_delete_option'\<close> and the question about deleting is sent.
\<close>

theorem waiting_buttons_step:
  assumes "chat_type u = ''private''"
    and "get_state st (user_id u) = Some waiting_buttons"
    and "dict_get (temp_messages st) (user_id u) = Some s"
    and "message_text u \<noteq> ''/cancel''"
    and "handle_text_input g ok st u = (st', out)"
  shows "get_state st' (user_id u) = Some waiting_delete_option
     \<and> dict_get (temp_messages st') (user_id u)
         = Some (s\<lparr>buttons :=
             map (\<lambda>l. \<lparr>btn_text = strip (takeWhile (\<lambda>c. c \<noteq> CHR ''|'') l),
                       btn_url = strip (drop 1 (dropWhile (\<lambda>c. c \<noteq> CHR ''|'') l))\<rparr>)
               (filter (\<lambda>l. CHR ''|'' \<in> set l)
                  (split_on CHR 0x0A (strip (message_text u))))\<rparr>)
     \<and> (message_text u = ''skip'' \<longrightarrow>
          dict_get (temp_messages st') (user_id u) = Some (s\<lparr>buttons := []\<rparr>))
     \<and> data st' = data st \<and> json_file st' = json_file st
     \<and> out = [Reply_text Ask_delete_previous]"
proof -
  have sb: "step_buttons st (user_id u) s (message_text u) = (st', out)"
    using handle_text_input_waiting_buttons [OF assms(1-4), of g ok] assms(5) by simp
  have skip: "message_text u = ''skip'' \<Longrightarrow>
      parse_buttons (split_on CHR 0x0A (strip (message_text u))) = []"
    by (simp add: text_eval str_in_bar)
  show ?thesis
    using step_buttons_result [OF sb] skip by (simp add: parse_buttons_eq)
qed

text \<open>
  The example of the specification: the three lines \<^verbatim>\<open>A|https://a.com\<close>, \<^verbatim>\<open>Bad line\<close>,
  \<^verbatim>\<open>B|https://b.com\<close> give exactly the two buttons A and B.
\<close>

theorem waiting_buttons_step_witness:
  "get_state
     (fst (handle_text_input (\<lambda>c u. None) True (bot_with_session 7 waiting_buttons new_session)
        \<lparr>chat_type = ''private'', user_id = 7,
         message_text = ''A|https://a.com'' @ [CHR 0x0A] @ ''Bad line'' @ [CHR 0x0A] @ ''B|https://b.com''\<rparr>)) 7
     = Some waiting_delete_option
   \<and> dict_get (temp_messages
       (fst (handle_text_input (\<lambda>c u. None) True (bot_with_session 7 waiting_buttons new_session)
          \<lparr>chat_type = ''private'', user_id = 7,
           message_text = ''A|https://a.com'' @ [CHR 0x0A] @ ''Bad line'' @ [CHR 0x0A] @ ''B|https://b.com''\<rparr>))) 7
     = Some (new_session\<lparr>buttons := [\<lparr>btn_text = ''A'', btn_url = ''https://a.com''\<rparr>,
                                      \<lparr>btn_text = ''B'', btn_url = ''https://b.com''\<rparr>]\<rparr>)"
  using waiting_buttons_step [of "\<lparr>chat_type = ''private'', user_id = 7,
         message_text = ''A|https://a.com'' @ [CHR 0x0A] @ ''Bad line'' @ [CHR 0x0A] @ ''B|https://b.com''\<rparr>"
      "bot_with_session 7 waiting_buttons new_session" new_session "\<lambda>c u. None" True
      "fst (handle_text_input (\<lambda>c u. None) True (bot_with_session 7 waiting_buttons new_session)
        \<lparr>chat_type = ''private'', user_id = 7,
         message_text = ''A|https://a.com'' @ [CHR 0x0A] @ ''Bad line'' @ [CHR 0x0A] @ ''B|https://b.com''\<rparr>)"
      "snd (handle_text_input (\<lambda>c u. None) True (bot_with_session 7 waiting_buttons new_session)
        \<lparr>chat_type = ''private'', user_id = 7,
         message_text = ''A|https://a.com'' @ [CHR 0x0A] @ ''Bad line'' @ [CHR 0x0A] @ ''B|https://b.com''\<rparr>)"]
  by (simp add: wizard_eval text_eval)

subsection \<open>The step \<^verbatim>\<open>'waiting_media'\<close>\<close>

text \<open>
  A photo, a video or an animation is recorded with its type, and the step becomes
  \<^verbatim>\<open>'waiting_buttons'\<close>.
\<close>

lemma handle_media_input_records:
  assumes "chat_type u = ''private''"
    and "get_state st (user_id u) = Some waiting_media"
    and "dict_get (temp_messages st) (user_id u) = Some s"
    and "photo u \<noteq> [] \<or> video u \<noteq> None \<or> animation u \<noteq> None"
    and "handle_media_input st u = (st', out)"
  shows "get_state st' (user_id u) = Some waiting_buttons
     \<and> dict_get (temp_messages st') (user_id u)
         = Some (if photo u \<noteq> []
                 then s\<lparr>media := Some (last (photo u)), media_type := Some ''photo''\<rparr>
                 else (case video u of
                         Some f \<Rightarrow> s\<lparr>media := Some f, media_type := Some ''video''\<rparr>
                       | None \<Rightarrow>
                          (case animation u of
                             Some f \<Rightarrow> s\<lparr>media := Some f, media_type := Some ''animation''\<rparr>
                           | None \<Rightarrow> s)))
     \<and> out = [Reply_text Step4_buttons]"
  using assms
  by (auto simp: handle_media_input_def Let_def get_state_def set_state_def set_session_def
        dict_get_set_same split: if_splits option.splits)

text \<open>
  Claim C7, at a text message. The specification has every input without media
  answered with a new prompt. \<^verbatim>\<open>handle_media_input\<close> does answer a message that holds
  no photo, video or animation with "Unsupported media type"; but a text message goes
  to \<^verbatim>\<open>handle_text_input\<close>, whose chain has no branch for the step \<^verbatim>\<open>'waiting_media'\<close>:
  the text \<^verbatim>\<open>hello\<close> leaves the state as it is and nothing is sent.
\<close>

theorem waiting_media_text_unanswered:
  "handle_text_input (\<lambda>c u. None) True (bot_with_session 7 waiting_media new_session)
      \<lparr>chat_type = ''private'', user_id = 7, message_text = ''hello''\<rparr>
     = (bot_with_session 7 waiting_media new_session, [])
   \<and> handle_media_input (bot_with_session 7 waiting_media new_session)
      \<lparr>chat_type = ''private'', user_id = 7, photo = [], video = None, animation = None\<rparr>
     = (bot_with_session 7 waiting_media new_session, [Reply_text Unsupported_media])"
  by (simp add: wizard_eval text_eval)

subsection \<open>Saving the session\<close>

lemma get_recurring_messages_add:
  "get_recurring_messages (add_recurring_message st cid m) cid' =
     (if cid' = cid then get_recurring_messages st cid @ [m] else get_recurring_messages st cid')"
  by (auto simp: get_recurring_messages_def add_recurring_message_def save_data_def dict_get_or_def
        dict_has_def Let_def dict_get_set_same dict_get_set_other split: option.splits)

lemma add_recurring_message_saved:
  "json_file (add_recurring_message st cid m) = Some (data (add_recurring_message st cid m))"
  by (simp add: add_recurring_message_def save_data_def Let_def)

lemma add_recurring_message_frame:
  "temp_messages (add_recurring_message st cid m) = temp_messages st
   \<and> user_data (add_recurring_message st cid m) = user_data st"
  by (simp add: add_recurring_message_def save_data_def Let_def)

text \<open>
  Claim C5. For every open session, the button "Save Message" builds a stored message
  whose text, media, media type, buttons, interval, delete-previous and pin fields are
  those of the session, with \<^verbatim>\<open>last_sent = 0\<close> and no \<^verbatim>\<open>last_message_id\<close>; it is appended
  to the list of the session's group by \<^verbatim>\<open>add_recurring_message\<close> (which writes the
  file), the lists of the other groups stay as they are, the session is deleted and the
  step is reset. After that a cancel, typed as \<^verbatim>\<open>/cancel\<close> or pressed as the button
  "Cancel", changes nothing.
\<close>

theorem confirm_save_message_stores:
  assumes "dict_get (temp_messages st) uid = Some s"
    and "confirm_save_message st uid = (st', out)"
  shows "get_recurring_messages st' (chat_id s)
           = get_recurring_messages st (chat_id s)
             @ [\<lparr>msg_text = msg_text s, media = media s, media_type = media_type s,
                 buttons = buttons s, interval = interval s,
                 delete_previous = delete_previous s, pin_message = pin_message s,
                 last_sent = 0, last_message_id = None\<rparr>]
     \<and> (\<forall>cid. cid \<noteq> chat_id s \<longrightarrow> get_recurring_messages st' cid = get_recurring_messages st cid)
     \<and> data st'
         = data (add_recurring_message st (chat_id s)
             \<lparr>msg_text = msg_text s, media = media s, media_type = media_type s,
              buttons = buttons s, interval = interval s,
              delete_previous = delete_previous s, pin_message = pin_message s,
              last_sent = 0, last_message_id = None\<rparr>)
     \<and> json_file st' = Some (data st')
     \<and> dict_get (temp_messages st') uid = None
     \<and> get_state st' uid = None
     \<and> handle_text_input g ok st' \<lparr>chat_type = ''private'', user_id = uid, message_text = ''/cancel''\<rparr>
         = (st', [])
     \<and> fst (show_recurring_menu st') = st'"
proof -
  define m where "m = \<lparr>msg_text = msg_text s, media = media s, media_type = media_type s,
     buttons = buttons s, interval = interval s, delete_previous = delete_previous s,
     pin_message = pin_message s, last_sent = 0, last_message_id = None\<rparr>"
  have st': "st' = set_state (del_session (add_recurring_message st (chat_id s) m) uid) uid None"
    using assms by (simp add: confirm_save_message_def Let_def m_def)
  have d: "data st' = data (add_recurring_message st (chat_id s) m)"
    by (simp add: st' set_state_def del_session_def)
  have j: "json_file st' = Some (data st')"
    using add_recurring_message_saved [of st "chat_id s" m]
    by (simp add: st' set_state_def del_session_def)
  have g: "\<And>cid. get_recurring_messages st' cid
             = get_recurring_messages (add_recurring_message st (chat_id s) m) cid"
    using d by (simp add: get_recurring_messages_def)
  have t: "dict_get (temp_messages st') uid = None"
    by (simp add: st' set_state_def del_session_def dict_get_del_same)
  have u: "get_state st' uid = None"
    by (simp add: st' set_state_def get_state_def dict_get_set_same)
  have c: "handle_text_input g ok st' \<lparr>chat_type = ''private'', user_id = uid, message_text = ''/cancel''\<rparr>
         = (st', [])"
    using u by (simp add: handle_text_input_def)
  show ?thesis
    using d j t u c by (simp add: g get_recurring_messages_add show_recurring_menu_def m_def)
qed

text \<open>
  The scenario of the specification: the session for the group \<^verbatim>\<open>-100123\<close> with the text
  "Hello", no media, the button Visit, the interval 10, delete-previous on and pin off.
\<close>

theorem confirm_save_message_stores_witness:
  "get_recurring_messages
     (fst (confirm_save_message
        (bot_with_session 7 waiting_interval
           \<lparr>msg_text = Some ''Hello'', media = None, media_type = None,
            buttons = [\<lparr>btn_text = ''Visit'', btn_url = ''https://x.com''\<rparr>], interval = Some 10,
            delete_previous = True, pin_message = False, chat_id = Some ''-100123''\<rparr>) 7))
     (Some ''-100123'')
     = [\<lparr>msg_text = Some ''Hello'', media = None, media_type = None,
         buttons = [\<lparr>btn_text = ''Visit'', btn_url = ''https://x.com''\<rparr>], interval = Some 10,
         delete_previous = True, pin_message = False, last_sent = 0, last_message_id = None\<rparr>]
   \<and> temp_messages
       (fst (confirm_save_message
          (bot_with_session 7 waiting_interval
             \<lparr>msg_text = Some ''Hello'', media = None, media_type = None,
              buttons = [\<lparr>btn_text = ''Visit'', btn_url = ''https://x.com''\<rparr>], interval = Some 10,
              delete_previous = True, pin_message = False, chat_id = Some ''-100123''\<rparr>) 7)) = []
   \<and> get_state
       (fst (confirm_save_message
          (bot_with_session 7 waiting_interval
             \<lparr>msg_text = Some ''Hello'', media = None, media_type = None,
              buttons = [\<lparr>btn_text = ''Visit'', btn_url = ''https://x.com''\<rparr>], interval = Some 10,
              delete_previous = True, pin_message = False, chat_id = Some ''-100123''\<rparr>) 7)) 7 = None"
  using confirm_save_message_stores
    [of "bot_with_session 7 waiting_interval
           \<lparr>msg_text = Some ''Hello'', media = None, media_type = None,
            buttons = [\<lparr>btn_text = ''Visit'', btn_url = ''https://x.com''\<rparr>], interval = Some 10,
            delete_previous = True, pin_message = False, chat_id = Some ''-100123''\<rparr>"
        7
        "\<lparr>msg_text = Some ''Hello'', media = None, media_type = None,
            buttons = [\<lparr>btn_text = ''Visit'', btn_url = ''https://x.com''\<rparr>], interval = Some 10,
            delete_previous = True, pin_message = False, chat_id = Some ''-100123''\<rparr>"
        "fst (confirm_save_message
          (bot_with_session 7 waiting_interval
             \<lparr>msg_text = Some ''Hello'', media = None, media_type = None,
              buttons = [\<lparr>btn_text = ''Visit'', btn_url = ''https://x.com''\<rparr>], interval = Some 10,
              delete_previous = True, pin_message = False, chat_id = Some ''-100123''\<rparr>) 7)"
        "snd (confirm_save_message
          (bot_with_session 7 waiting_interval
             \<lparr>msg_text = Some ''Hello'', media = None, media_type = None,
              buttons = [\<lparr>btn_text = ''Visit'', btn_url = ''https://x.com''\<rparr>], interval = Some 10,
              delete_previous = True, pin_message = False, chat_id = Some ''-100123''\<rparr>) 7)"]
  by (simp add: wizard_eval storage_eval)

section \<open>The scheduler's round for one message\<close>

lemmas sched_eval =
  bot_with_items_def empty_data_def save_data_def truthy_str_def truthy_id_def reply_markup_def
  caption_of_def send_call_def delete_previous_events_def pin_events_def try_send_def send_item_def
  put_item_def process_item_def chat_at_def item_at_def Let_def

lemma process_item_at:
  assumes "item_at st i j = Some m" and "chat_at st i = Some cid"
  shows "process_item tr now st i j =
     (case send_item tr now cid m of
        None \<Rightarrow> None
      | Some (m', evs, saved) \<Rightarrow>
          Some (if saved then save_data (put_item st i j m') else put_item st i j m', evs))"
  using assms by (auto simp: process_item_def item_at_def chat_at_def Let_def split: if_splits)

lemma put_item_same: "item_at st i j = Some m \<Longrightarrow> put_item st i j m = st"
  by (auto simp: put_item_def item_at_def Let_def split: if_splits)

lemma item_at_put_item:
  "item_at st i j = Some m \<Longrightarrow> item_at (put_item st i j m') i j = Some m'"
  by (auto simp: put_item_def item_at_def Let_def split: if_splits)

lemma chat_at_put_item: "chat_at (put_item st i j m') i' = chat_at st i'"
  by (cases "i' = i") (auto simp: put_item_def chat_at_def Let_def)

lemma item_at_save_data: "item_at (save_data st) i j = item_at st i j"
  by (simp add: item_at_def save_data_def)

lemma chat_at_save_data: "chat_at (save_data st) i = chat_at st i"
  by (simp add: chat_at_def save_data_def)

lemma json_file_save_data: "json_file (save_data st) = Some (data (save_data st))"
  by (simp add: save_data_def)



lemma pin_events_cases:
  "pin_events tr cid m mid = [] \<or> pin_events tr cid m mid = [Pin_chat_message cid mid]
   \<or> pin_events tr cid m mid = [Pin_chat_message cid mid, Print_could_not_pin]"
  by (simp add: pin_events_def)

lemma no_send_in_pin: "e \<in> set (pin_events tr cid m mid) \<Longrightarrow> \<not> is_send e"
  using pin_events_cases [of tr cid m mid] by auto


lemma send_call_None_iff:
  "send_call cid m = None \<longleftrightarrow>
     (if truthy_str (media m) \<and> truthy_str (media_type m)
      then media_type m \<notin> {Some ''photo'', Some ''video'', Some ''animation''}
      else \<not> truthy_str (msg_text m))"
  by (cases "media m"; cases "msg_text m") (auto simp: send_call_def truthy_str_def)


lemma send_item_due:
  "interval m = Some n \<Longrightarrow> now - last_sent m \<ge> real_of_int (n * 60) \<Longrightarrow>
     send_item tr now cid m = Some (try_send tr now cid m)"
  by (simp add: send_item_def Let_def)

section \<open>The scheduler's run over all messages\<close>

text \<open>
  A round changes the message at its own position only, and only its \<^verbatim>\<open>last_sent\<close> and
  \<^verbatim>\<open>last_message_id\<close>; the run therefore reaches every message as it was stored, unless
  a message before it has no interval.
\<close>

lemma item_at_range:
  "item_at st i j = Some m \<Longrightarrow>
     i < length (recurring_messages (data st)) \<and> j < length (snd (recurring_messages (data st) ! i))"
  by (auto simp: item_at_def Let_def split: if_splits)

lemma upt_split:
  fixes i n :: nat
  assumes "i < n"
  shows "[0 ..< n] = [0 ..< i] @ i # [Suc i ..< n]"
proof -
  have "[0 ..< i + (n - i)] = [0 ..< i] @ [i ..< i + (n - i)]"
    by (rule upt_add_eq_append) simp
  then have "[0 ..< n] = [0 ..< i] @ [i ..< n]" using assms by simp
  then show ?thesis using assms by (simp add: upt_conv_Cons)
qed

lemma positions_split:
  assumes "item_at st i j = Some m"
  shows "positions st = positions_before st i j @ (i, j) # positions_after st i j"
proof -
  let ?rm = "recurring_messages (data st)"
  from assms have i: "i < length ?rm" and j: "j < length (snd (?rm ! i))"
    using item_at_range by blast+
  have 1: "[0 ..< length ?rm] = [0 ..< i] @ i # [Suc i ..< length ?rm]"
    using i by (simp add: upt_split)
  have 2: "[0 ..< length (snd (?rm ! i))] = [0 ..< j] @ j # [Suc j ..< length (snd (?rm ! i))]"
    using j by (simp add: upt_split)
  show ?thesis
    unfolding positions_def positions_before_def positions_after_def
    by (subst 1, simp, subst 2, simp)
qed

lemma not_in_before: "(i, j) \<notin> set (positions_before st i j)"
  by (auto simp: positions_before_def)

lemma not_in_after: "(i, j) \<notin> set (positions_after st i j)"
  by (auto simp: positions_after_def)

lemma run_items_append:
  "run_items env now (ps @ qs) st =
     (case run_items env now ps st of
        (st1, e1, r1) \<Rightarrow>
          if r1 then (st1, e1, True)
          else (case run_items env now qs st1 of (st2, e2, r2) \<Rightarrow> (st2, e1 @ e2, r2)))"
proof (induction ps arbitrary: st)
  case Nil
  show ?case by (simp split: prod.splits)
next
  case (Cons p ps)
  obtain i j where p: "p = (i, j)" by (cases p)
  show ?case
    by (simp add: p Cons.IH split: option.splits prod.splits)
qed

lemma send_item_interval:
  "send_item tr now cid m = Some (m', evs, saved) \<Longrightarrow> interval m' = interval m"
  by (auto simp: send_item_def try_send_def Let_def split: option.splits if_splits)

lemma process_item_cases:
  assumes "process_item tr now st i' j' = Some (st1, evs)"
  shows "st1 = st
     \<or> (\<exists>m m'. item_at st i' j' = Some m \<and> interval m' = interval m
          \<and> (st1 = put_item st i' j' m' \<or> st1 = save_data (put_item st i' j' m')))"
proof (cases "item_at st i' j'")
  case None
  then have "process_item tr now st i' j' = Some (st, [])"
    by (auto simp: process_item_def item_at_def Let_def split: if_splits)
  with assms show ?thesis by simp
next
  case (Some m)
  then have r: "i' < length (recurring_messages (data st))" using item_at_range by blast
  then have c: "chat_at st i' = Some (fst (recurring_messages (data st) ! i'))"
    by (simp add: chat_at_def Let_def)
  from assms obtain m' saved where
    s: "send_item tr now (fst (recurring_messages (data st) ! i')) m = Some (m', evs, saved)"
    and st1: "st1 = (if saved then save_data (put_item st i' j' m') else put_item st i' j' m')"
    by (auto simp: process_item_at [OF Some c] split: option.splits)
  from s have "interval m' = interval m" by (rule send_item_interval)
  with Some st1 show ?thesis by auto
qed

lemma shape_put_item: "shape (put_item st i j m) = shape st"
proof -
  let ?rm = "recurring_messages (data st)"
  have "map (\<lambda>e. length (snd e)) (?rm[i := (fst (?rm ! i), (snd (?rm ! i))[j := m])])
          = map (\<lambda>e. length (snd e)) ?rm"
    by (cases "i < length ?rm") (simp_all add: map_update list_update_same_conv list_update_beyond)
  then show ?thesis by (simp add: shape_def put_item_def Let_def)
qed

lemma shape_save_data: "shape (save_data st) = shape st"
  by (simp add: shape_def save_data_def)

lemma item_at_put_item_other:
  "(i, j) \<noteq> (i', j') \<Longrightarrow> item_at (put_item st i' j' m') i j = item_at st i j"
proof -
  let ?rm = "recurring_messages (data st)"
  let ?rm' = "?rm[i' := (fst (?rm ! i'), (snd (?rm ! i'))[j' := m'])]"
  assume ne: "(i, j) \<noteq> (i', j')"
  have l: "length ?rm' = length ?rm" by simp
  have "i < length ?rm \<Longrightarrow> length (snd (?rm' ! i)) = length (snd (?rm ! i))"
    by (cases "i = i'") (simp_all add: nth_list_update)
  moreover have "i < length ?rm \<Longrightarrow> j < length (snd (?rm ! i)) \<Longrightarrow> snd (?rm' ! i) ! j = snd (?rm ! i) ! j"
    using ne by (cases "i = i'") (simp_all add: nth_list_update)
  ultimately show ?thesis
    by (auto simp: put_item_def item_at_def Let_def)
qed

lemma has_interval_put_item:
  assumes "item_at st i' j' = Some m" and "interval m' = interval m"
  shows "has_interval (put_item st i' j' m') p = has_interval st p"
proof (cases "p = (i', j')")
  case True
  with assms show ?thesis by (simp add: has_interval_def item_at_put_item)
next
  case False
  then have "item_at (put_item st i' j' m') (fst p) (snd p) = item_at st (fst p) (snd p)"
    using item_at_put_item_other [of "fst p" "snd p" i' j'] by (cases p) auto
  then show ?thesis by (simp add: has_interval_def)
qed

lemma has_interval_save_data: "has_interval (save_data st) p = has_interval st p"
  by (simp add: has_interval_def item_at_save_data)

lemma file_item_at_put_item: "file_item_at (put_item st i' j' m') i j = file_item_at st i j"
  by (simp add: file_item_at_def put_item_def Let_def)

lemma file_item_at_save_data: "file_item_at (save_data st) i j = item_at st i j"
  by (simp add: file_item_at_def save_data_def item_at_def Let_def)

lemma process_item_frame:
  assumes "process_item tr now st i' j' = Some (st1, evs)"
  shows "shape st1 = shape st"
    and "chat_at st1 k = chat_at st k"
    and "has_interval st1 p = has_interval st p"
    and "(i, j) \<noteq> (i', j') \<Longrightarrow> item_at st1 i j = item_at st i j"
    and "(i, j) \<noteq> (i', j') \<Longrightarrow> item_at st i j = Some x \<Longrightarrow> file_item_at st i j = Some x
           \<Longrightarrow> file_item_at st1 i j = Some x"
  using process_item_cases [OF assms]
  by (auto simp: shape_put_item shape_save_data chat_at_put_item chat_at_save_data
        has_interval_put_item has_interval_save_data item_at_put_item_other item_at_save_data
        file_item_at_put_item file_item_at_save_data)

lemma run_items_frame:
  assumes "run_items env now ps st = (st', evs, r)"
  shows "shape st' = shape st \<and> (\<forall>k. chat_at st' k = chat_at st k)
     \<and> (\<forall>p. has_interval st' p = has_interval st p)
     \<and> ((i, j) \<notin> set ps \<longrightarrow> item_at st' i j = item_at st i j)
     \<and> ((i, j) \<notin> set ps \<longrightarrow> item_at st i j = Some x \<longrightarrow> file_item_at st i j = Some x
           \<longrightarrow> file_item_at st' i j = Some x)"
  using assms
proof (induction ps arbitrary: st st' evs r)
  case Nil
  then show ?case by simp
next
  case (Cons p ps)
  obtain i' j' where p: "p = (i', j')" by (cases p)
  show ?case
  proof (cases "process_item (env i' j') now st i' j'")
    case None
    with Cons.prems p have "st' = st" by simp
    then show ?thesis by simp
  next
    case (Some a)
    obtain st1 e1 where a: "a = (st1, e1)" by (cases a)
    obtain st2 e2 r2 where rest: "run_items env now ps st1 = (st2, e2, r2)"
      by (metis prod_cases3)
    from Cons.prems p Some a rest have st': "st' = st2" by simp
    note f1 = process_item_frame [OF Some [unfolded a]]
    note f2 = Cons.IH [OF rest]
    show ?thesis
      unfolding st' using f1 f2 by (auto simp: p)
  qed
qed

lemma process_item_returns:
  "has_interval st (i, j) \<Longrightarrow> \<exists>st1 e1. process_item tr now st i j = Some (st1, e1)"
  by (auto simp: has_interval_def item_at_def process_item_def send_item_def Let_def
        split: option.splits if_splits prod.splits)

lemma run_items_no_raise:
  "\<forall>p\<in>set ps. has_interval st p \<Longrightarrow> \<exists>st' evs. run_items env now ps st = (st', evs, False)"
proof (induction ps arbitrary: st)
  case Nil
  show ?case by simp
next
  case (Cons p ps)
  obtain i j where p: "p = (i, j)" by (cases p)
  from Cons.prems p obtain st1 e1 where 1: "process_item (env i j) now st i j = Some (st1, e1)"
    using process_item_returns [of st i j "env i j" now] by auto
  have "\<forall>q\<in>set ps. has_interval st1 q"
    using Cons.prems process_item_frame(3) [OF 1] by simp
  then obtain st' evs where "run_items env now ps st1 = (st', evs, False)"
    using Cons.IH by blast
  with 1 show ?case by (simp add: p)
qed

lemma positions_before_shape:
  assumes "shape st1 = shape st" and "i < length (shape st)"
  shows "positions_before st1 i j = positions_before st i j"
proof -
  have l: "length (recurring_messages (data st1)) = length (recurring_messages (data st))"
    using assms(1) by (metis length_map shape_def)
  have len: "length (snd (recurring_messages (data st1) ! k)) = length (snd (recurring_messages (data st) ! k))"
    if "k < i" for k
  proof -
    have k: "k < length (recurring_messages (data st))" using that assms(2) by (simp add: shape_def)
    have "shape st1 ! k = shape st ! k" using assms(1) by simp
    then show ?thesis using k l by (simp add: shape_def)
  qed
  have "map (\<lambda>i'. map (\<lambda>j'. (i', j')) [0 ..< length (snd (recurring_messages (data st1) ! i'))]) [0 ..< i]
      = map (\<lambda>i'. map (\<lambda>j'. (i', j')) [0 ..< length (snd (recurring_messages (data st) ! i'))]) [0 ..< i]"
    by (rule map_cong) (simp_all add: len)
  then show ?thesis by (simp only: positions_before_def)
qed




lemma send_item_failure:
  "interval m = Some n \<Longrightarrow> now - last_sent m \<ge> real_of_int (n * 60) \<Longrightarrow> send_call cid m = Some c \<Longrightarrow>
   send_result tr = None \<Longrightarrow>
     send_item tr now cid m
       = Some (m, delete_previous_events tr cid m @ [c, Print_error_sending], False)"
  by (simp add: send_item_due try_send_def)

lemma send_item_success:
  "interval m = Some n \<Longrightarrow> now - last_sent m \<ge> real_of_int (n * 60) \<Longrightarrow> send_call cid m = Some c \<Longrightarrow>
   send_result tr = Some mid \<Longrightarrow>
     send_item tr now cid m
       = Some (m\<lparr>last_message_id := Some mid, last_sent := now\<rparr>,
               delete_previous_events tr cid m @ [c] @ pin_events tr cid m mid, True)"
  by (simp add: send_item_due try_send_def)

lemma tick_at:
  assumes it: "item_at st i j = Some m" and ch: "chat_at st i = Some cid"
    and ok: "\<forall>p\<in>set (positions_before st i j). has_interval st p"
    and s: "send_item (env i j) now cid m = Some (m', mine, saved)"
  shows "\<exists>st1 pre st' post r.
       run_items env now (positions_before st i j) st = (st1, pre, False)
     \<and> item_at st1 i j = Some m
     \<and> process_item (env i j) now st1 i j
         = Some (if saved then save_data (put_item st1 i j m') else put_item st1 i j m', mine)
     \<and> run_items env now (positions_after st i j)
         (if saved then save_data (put_item st1 i j m') else put_item st1 i j m') = (st', post, r)
     \<and> send_recurring_messages env now st = (st', pre @ mine @ post, r)
     \<and> item_at st' i j = Some m' \<and> chat_at st' i = Some cid
     \<and> (saved \<longrightarrow> file_item_at st' i j = Some m')
     \<and> positions_before st' i j = positions_before st i j
     \<and> (\<forall>p. has_interval st' p = has_interval st p)"
proof -
  obtain st1 pre where r1: "run_items env now (positions_before st i j) st = (st1, pre, False)"
    using run_items_no_raise [OF ok] by blast
  note f1 = run_items_frame [OF r1, of i j m]
  have it1: "item_at st1 i j = Some m"
    using f1 not_in_before it by simp
  have ch1: "chat_at st1 i = Some cid"
    using f1 ch by simp
  let ?st2 = "if saved then save_data (put_item st1 i j m') else put_item st1 i j m'"
  have p: "process_item (env i j) now st1 i j = Some (?st2, mine)"
    using it1 ch1 s by (simp add: process_item_at)
  obtain st' post r where r3: "run_items env now (positions_after st i j) ?st2 = (st', post, r)"
    by (metis prod_cases3)
  have tick: "send_recurring_messages env now st = (st', pre @ mine @ post, r)"
    unfolding send_recurring_messages_def positions_split [OF it]
    by (simp add: run_items_append r1 p r3)
  have it2: "item_at ?st2 i j = Some m'"
    using it1 by (simp add: item_at_save_data item_at_put_item)
  have file2: "saved \<Longrightarrow> file_item_at ?st2 i j = Some m'"
    using it1 by (simp add: file_item_at_save_data item_at_put_item)
  note f2 = process_item_frame [OF p]
  note f3 = run_items_frame [OF r3, of i j m']
  have it3: "item_at st' i j = Some m'"
    using f3 not_in_after it2 by simp
  have file3: "saved \<longrightarrow> file_item_at st' i j = Some m'"
    using f3 not_in_after it2 file2 by simp
  have ch3: "chat_at st' i = Some cid"
    using f3 f2(2) ch1 by simp
  have sh: "shape st' = shape st"
    using f3 f2(1) f1 by simp
  have "i < length (shape st)"
    using item_at_range [OF it] by (simp add: shape_def)
  with sh have pb: "positions_before st' i j = positions_before st i j"
    by (rule positions_before_shape)
  have hi: "\<forall>p. has_interval st' p = has_interval st p"
    using f3 f2(3) f1 by simp
  show ?thesis
    using r1 it1 p r3 tick it3 ch3 file3 pb hi by blast
qed

lemmas tick_eval =
  send_recurring_messages_def positions_def positions_before_def positions_after_def
  has_interval_def file_item_at_def




text \<open>
  Claim C2. On a run of the scheduler that reaches a stored message which is due and
  whose fields select a send call. When the send call raises: the round for the message
  leaves the whole state as it was (\<^verbatim>\<open>last_sent\<close> is not advanced, nothing is written),
  the message is unchanged at the end of the run, and on every later run the send call
  is made again, after the events of the messages before and the deletion of the
  previous message. When the send call returns the message with id \<open>mid\<close>: at the end
  of the run the message has \<^verbatim>\<open>last_sent = now\<close> and \<^verbatim>\<open>last_message_id = mid\<close>, in the
  storage and in the file, whatever the outcome of deleting the previous message and of
  pinning the new one.
\<close>

theorem tick_send_failure_retries_success_advances:
  assumes "item_at st i j = Some m" and "chat_at st i = Some cid"
    and "\<forall>p\<in>set (positions_before st i j). has_interval st p"
    and "interval m = Some n" and "now - last_sent m \<ge> real_of_int (n * 60)"
    and "send_call cid m = Some c"
  shows "(send_result (env i j) = None \<longrightarrow>
            (\<exists>st1 pre st' post r.
                run_items env now (positions_before st i j) st = (st1, pre, False)
              \<and> process_item (env i j) now st1 i j
                  = Some (st1, delete_previous_events (env i j) cid m @ [c, Print_error_sending])
              \<and> run_items env now (positions_after st i j) st1 = (st', post, r)
              \<and> send_recurring_messages env now st
                  = (st', pre @ (delete_previous_events (env i j) cid m @ [c, Print_error_sending]) @ post, r)
              \<and> item_at st' i j = Some m
              \<and> (\<forall>env' now'. now \<le> now' \<longrightarrow>
                   (\<exists>st1' pre' st'' rest' r'.
                       run_items env' now' (positions_before st' i j) st' = (st1', pre', False)
                     \<and> send_recurring_messages env' now' st'
                         = (st'', pre' @ delete_previous_events (env' i j) cid m @ c # rest', r')))))
     \<and> (\<forall>mid. send_result (env i j) = Some mid \<longrightarrow>
            (\<exists>st1 pre st' post r.
                run_items env now (positions_before st i j) st = (st1, pre, False)
              \<and> run_items env now (positions_after st i j)
                  (save_data (put_item st1 i j (m\<lparr>last_message_id := Some mid, last_sent := now\<rparr>)))
                  = (st', post, r)
              \<and> send_recurring_messages env now st
                  = (st', pre @ (delete_previous_events (env i j) cid m @ [c]
                                  @ pin_events (env i j) cid m mid) @ post, r)
              \<and> item_at st' i j = Some (m\<lparr>last_message_id := Some mid, last_sent := now\<rparr>)
              \<and> file_item_at st' i j = Some (m\<lparr>last_message_id := Some mid, last_sent := now\<rparr>)))"
proof (intro conjI impI allI)
  assume f: "send_result (env i j) = None"
  let ?mine = "delete_previous_events (env i j) cid m @ [c, Print_error_sending]"
  have s: "send_item (env i j) now cid m = Some (m, ?mine, False)"
    using assms(4-6) f by (rule send_item_failure)
  from tick_at [where env = env, OF assms(1-3) s] obtain st1 pre st' post r where
    a: "run_items env now (positions_before st i j) st = (st1, pre, False)"
    and a': "item_at st1 i j = Some m"
    and p: "process_item (env i j) now st1 i j = Some (put_item st1 i j m, ?mine)"
    and b: "run_items env now (positions_after st i j) (put_item st1 i j m) = (st', post, r)"
    and c: "send_recurring_messages env now st = (st', pre @ ?mine @ post, r)"
    and d: "item_at st' i j = Some m" and e: "chat_at st' i = Some cid"
    and g: "positions_before st' i j = positions_before st i j"
    and h: "\<forall>p. has_interval st' p = has_interval st p"
    by auto
  have same: "put_item st1 i j m = st1"
    using a' by (rule put_item_same)
  have again: "\<exists>st1' pre' st'' rest' r'.
                  run_items env' now' (positions_before st' i j) st' = (st1', pre', False)
                \<and> send_recurring_messages env' now' st'
                    = (st'', pre' @ delete_previous_events (env' i j) cid m @ c # rest', r')"
    if le: "now \<le> now'" for env' now'
  proof -
    have due: "now' - last_sent m \<ge> real_of_int (n * 60)"
      using assms(5) le by linarith
    have ok': "\<forall>p\<in>set (positions_before st' i j). has_interval st' p"
      using assms(3) g h by auto
    have "\<exists>m' suffix saved.
            send_item (env' i j) now' cid m
              = Some (m', delete_previous_events (env' i j) cid m @ c # suffix, saved)"
    proof (cases "send_result (env' i j)")
      case None
      show ?thesis
        using send_item_failure [OF assms(4) due assms(6) None] by blast
    next
      case (Some mid')
      have "send_item (env' i j) now' cid m
              = Some (m\<lparr>last_message_id := Some mid', last_sent := now'\<rparr>,
                      delete_previous_events (env' i j) cid m @ c # pin_events (env' i j) cid m mid', True)"
        using send_item_success [OF assms(4) due assms(6) Some] by simp
      then show ?thesis by blast
    qed
    then obtain m' suffix saved where
      s': "send_item (env' i j) now' cid m
             = Some (m', delete_previous_events (env' i j) cid m @ c # suffix, saved)"
      by blast
    from tick_at [where env = env', OF d e ok' s'] obtain st1' pre' st'' post' r' where
      1: "run_items env' now' (positions_before st' i j) st' = (st1', pre', False)"
      and 2: "send_recurring_messages env' now' st'
                = (st'', pre' @ (delete_previous_events (env' i j) cid m @ c # suffix) @ post', r')"
      by blast
    from 2 have "send_recurring_messages env' now' st'
                = (st'', pre' @ delete_previous_events (env' i j) cid m @ c # (suffix @ post'), r')"
      by simp
    with 1 show ?thesis by blast
  qed
  show "\<exists>st1 pre st' post r.
          run_items env now (positions_before st i j) st = (st1, pre, False)
        \<and> process_item (env i j) now st1 i j = Some (st1, ?mine)
        \<and> run_items env now (positions_after st i j) st1 = (st', post, r)
        \<and> send_recurring_messages env now st = (st', pre @ ?mine @ post, r)
        \<and> item_at st' i j = Some m
        \<and> (\<forall>env' now'. now \<le> now' \<longrightarrow>
             (\<exists>st1' pre' st'' rest' r'.
                 run_items env' now' (positions_before st' i j) st' = (st1', pre', False)
               \<and> send_recurring_messages env' now' st'
                   = (st'', pre' @ delete_previous_events (env' i j) cid m @ c # rest', r')))"
    using a p b c d again unfolding same by blast
next
  fix mid
  assume f: "send_result (env i j) = Some mid"
  let ?m = "m\<lparr>last_message_id := Some mid, last_sent := now\<rparr>"
  let ?mine = "delete_previous_events (env i j) cid m @ [c] @ pin_events (env i j) cid m mid"
  have s: "send_item (env i j) now cid m = Some (?m, ?mine, True)"
    using assms(4-6) f by (rule send_item_success)
  from tick_at [where env = env, OF assms(1-3) s] obtain st1 pre st' post r where
    a: "run_items env now (positions_before st i j) st = (st1, pre, False)"
    and b: "run_items env now (positions_after st i j) (save_data (put_item st1 i j ?m)) = (st', post, r)"
    and c: "send_recurring_messages env now st = (st', pre @ ?mine @ post, r)"
    and d: "item_at st' i j = Some ?m"
    and e: "file_item_at st' i j = Some ?m"
    by auto
  then show "\<exists>st1 pre st' post r.
          run_items env now (positions_before st i j) st = (st1, pre, False)
        \<and> run_items env now (positions_after st i j) (save_data (put_item st1 i j ?m)) = (st', post, r)
        \<and> send_recurring_messages env now st = (st', pre @ ?mine @ post, r)
        \<and> item_at st' i j = Some ?m
        \<and> file_item_at st' i j = Some ?m"
    by blast
qed

text \<open>
  A text message with delete-previous and pin switched on, sent once before. On the
  first run the send call fails and nothing changes; on the run 30 seconds later the
  send call succeeds while deleting and pinning both fail, and the message is stamped
  and stored.
\<close>

theorem tick_send_failure_retries_success_advances_witness:
  "send_recurring_messages (\<lambda>i j. \<lparr>prev_delete_ok = False, send_result = None, pin_ok = False\<rparr>) 1762214400 (bot_with_items [(Some ''-100123'',
        [\<lparr>msg_text = Some ''Hello'', media = None, media_type = None, buttons = [], interval = Some 10,
          delete_previous = True, pin_message = True, last_sent = 1762213000,
          last_message_id = Some 500\<rparr>])])
   = ((bot_with_items [(Some ''-100123'',
        [\<lparr>msg_text = Some ''Hello'', media = None, media_type = None, buttons = [], interval = Some 10,
          delete_previous = True, pin_message = True, last_sent = 1762213000,
          last_message_id = Some 500\<rparr>])]),
      [Delete_previous (Some ''-100123'') 500, Print_could_not_delete,
       Send_text (Some ''-100123'') ''Hello'' None, Print_error_sending], False)
   \<and> send_recurring_messages (\<lambda>i j. \<lparr>prev_delete_ok = False, send_result = Some 501, pin_ok = False\<rparr>) 1762214430 (bot_with_items [(Some ''-100123'',
        [\<lparr>msg_text = Some ''Hello'', media = None, media_type = None, buttons = [], interval = Some 10,
          delete_previous = True, pin_message = True, last_sent = 1762213000,
          last_message_id = Some 500\<rparr>])])
   = (save_data (bot_with_items [(Some ''-100123'',
        [\<lparr>msg_text = Some ''Hello'', media = None, media_type = None, buttons = [], interval = Some 10,
          delete_previous = True, pin_message = True, last_sent = 1762214430,
          last_message_id = Some 501\<rparr>])]),
      [Delete_previous (Some ''-100123'') 500, Print_could_not_delete,
       Send_text (Some ''-100123'') ''Hello'' None,
       Pin_chat_message (Some ''-100123'') 501, Print_could_not_pin], False)"
  using tick_send_failure_retries_success_advances
    [where st = "(bot_with_items [(Some ''-100123'',
        [\<lparr>msg_text = Some ''Hello'', media = None, media_type = None, buttons = [], interval = Some 10,
          delete_previous = True, pin_message = True, last_sent = 1762213000,
          last_message_id = Some 500\<rparr>])])" and i = 0 and j = 0
      and m = "\<lparr>msg_text = Some ''Hello'', media = None, media_type = None, buttons = [], interval = Some 10,
          delete_previous = True, pin_message = True, last_sent = 1762213000,
          last_message_id = Some 500\<rparr>"
      and cid = "Some ''-100123''" and n = 10 and now = 1762214400
      and c = "Send_text (Some ''-100123'') ''Hello'' None"
      and env = "(\<lambda>i j. \<lparr>prev_delete_ok = False, send_result = None, pin_ok = False\<rparr>)"]
    tick_send_failure_retries_success_advances
    [where st = "(bot_with_items [(Some ''-100123'',
        [\<lparr>msg_text = Some ''Hello'', media = None, media_type = None, buttons = [], interval = Some 10,
          delete_previous = True, pin_message = True, last_sent = 1762213000,
          last_message_id = Some 500\<rparr>])])" and i = 0 and j = 0
      and m = "\<lparr>msg_text = Some ''Hello'', media = None, media_type = None, buttons = [], interval = Some 10,
          delete_previous = True, pin_message = True, last_sent = 1762213000,
          last_message_id = Some 500\<rparr>"
      and cid = "Some ''-100123''" and n = 10 and now = 1762214430
      and c = "Send_text (Some ''-100123'') ''Hello'' None"
      and env = "(\<lambda>i j. \<lparr>prev_delete_ok = False, send_result = Some 501, pin_ok = False\<rparr>)"]
  by (simp add: sched_eval tick_eval)




section \<open>The moderation filter: auto replies and deletions\<close>

lemmas filter_eval =
  text_or_caption_def truthy_str_def check_links_def check_mentions_def check_banned_words_def
  check_message_def delete_with_warning_def is_admin_user_def filter_message_def chat_key_def
  body_of_def Let_def

text \<open>The operator \<^verbatim>\<open>in\<close> is the occurrence as a contiguous piece, at any place.\<close>

lemma starts_with_iff: "starts_with s p \<longleftrightarrow> (\<exists>post. s = p @ post)"
  by (induction s p rule: starts_with.induct) auto

lemma str_in_iff: "str_in sub s \<longleftrightarrow> (\<exists>pre post. s = pre @ sub @ post)"
proof (induction s)
  case Nil
  then show ?case by auto
next
  case (Cons c cs)
  show ?case
  proof
    assume "str_in sub (c # cs)"
    then consider "starts_with (c # cs) sub" | "str_in sub cs" by auto
    then show "\<exists>pre post. c # cs = pre @ sub @ post"
    proof cases
      case 1
      then obtain post where "c # cs = sub @ post" using starts_with_iff by blast
      then have "c # cs = [] @ sub @ post" by simp
      then show ?thesis by blast
    next
      case 2
      then obtain pre post where "cs = pre @ sub @ post" using Cons.IH by blast
      then have "c # cs = (c # pre) @ sub @ post" by simp
      then show ?thesis by blast
    qed
  next
    assume "\<exists>pre post. c # cs = pre @ sub @ post"
    then obtain pre post where e: "c # cs = pre @ sub @ post" by blast
    show "str_in sub (c # cs)"
    proof (cases pre)
      case Nil
      with e have "starts_with (c # cs) sub" using starts_with_iff by auto
      then show ?thesis by simp
    next
      case (Cons a pre')
      with e have "cs = pre' @ sub @ post" by simp
      then have "str_in sub cs" using Cons.IH by blast
      then show ?thesis by simp
    qed
  qed
qed

lemma auto_reply_loop_none:
  "(\<forall>p\<in>set rs. \<not> str_in (fst p) body) \<Longrightarrow> auto_reply_loop md rs body = []"
  by (induction rs) auto

lemma auto_reply_loop_first:
  "(\<forall>p\<in>set pre. \<not> str_in (fst p) body) \<Longrightarrow> str_in t body \<Longrightarrow>
     auto_reply_loop md (pre @ (t, r) # post) body
       = Reply_markdown r # (if md then [] else [Reply_plain r])"
  by (induction pre) auto

lemma auto_reply_loop_replies: "e \<in> set (auto_reply_loop md rs body) \<Longrightarrow> is_reply e"
  by (induction rs) (auto split: if_splits)

lemma auto_reply_loop_markdown_iff:
  "(\<exists>r. Reply_markdown r \<in> set (auto_reply_loop md rs body)) \<longleftrightarrow> (\<exists>p\<in>set rs. str_in (fst p) body)"
proof (induction rs)
  case Nil
  show ?case by simp
next
  case (Cons p rs)
  obtain t r where p: "p = (t, r)" by (cases p)
  show ?case
  proof (cases "str_in t body")
    case True
    then show ?thesis by (auto simp: p)
  next
    case False
    then show ?thesis using Cons.IH by (simp add: p)
  qed
qed

lemma delete_with_warning_no_reply: "e \<in> set (delete_with_warning env cid r) \<Longrightarrow> \<not> is_reply e"
  by (auto simp: delete_with_warning_def split: if_splits)


lemma filter_message_group:
  "chat_type msg \<noteq> ''private'' \<Longrightarrow>
   filter_message env st (Some msg) =
     auto_reply_loop (markdown_ok env) (get_auto_replies st (chat_key msg)) (lower (body_of msg))
     @ (if is_admin_user env then []
        else (case check_message st (chat_key msg) (body_of msg) of
                None \<Rightarrow> []
              | Some r \<Rightarrow> delete_with_warning env (chat_key msg) r))"
  by (simp add: filter_message_def chat_key_def body_of_def Let_def split: option.splits)


lemma filter_replies_append:
  "(\<forall>e\<in>set xs. is_reply e) \<Longrightarrow> (\<forall>e\<in>set ys. \<not> is_reply e) \<Longrightarrow>
     filter is_reply (xs @ ys) = xs \<and> filter (\<lambda>e. \<not> is_reply e) (xs @ ys) = ys"
  by (simp add: filter_empty_conv filter_id_conv)

lemma deletion_events_no_reply:
  "\<forall>e\<in>set (if adm then [] else (case v of None \<Rightarrow> [] | Some r \<Rightarrow> delete_with_warning env cid r)).
     \<not> is_reply e"
  by (cases v) (auto dest: delete_with_warning_no_reply)

text \<open>
  Claim C4. For every message of a group (any chat that is not private), whoever the
  sender is: an auto reply is sent if and only if some trigger of the group occurs in
  the lower-cased text as a contiguous piece, at any place; the replies sent are those
  for the first such trigger in the order of the dictionary, and for no other (the
  answer with Markdown and, when that call fails, the same answer without); and when
  the sender is an administrator or the creator, every event is such a reply: the
  message is not deleted and no warning is sent.
\<close>

theorem auto_reply_first_trigger:
  assumes "chat_type msg \<noteq> ''private''"
  shows "((\<exists>r. Reply_markdown r \<in> set (filter_message env st (Some msg)))
            \<longleftrightarrow> (\<exists>p\<in>set (get_auto_replies st (chat_key msg)).
                   \<exists>pre post. lower (body_of msg) = pre @ fst p @ post))
     \<and> (\<forall>pre t r post.
           get_auto_replies st (chat_key msg) = pre @ (t, r) # post
           \<and> (\<forall>p\<in>set pre. \<not> str_in (fst p) (lower (body_of msg)))
           \<and> str_in t (lower (body_of msg))
           \<longrightarrow> filter is_reply (filter_message env st (Some msg))
                 = Reply_markdown r # (if markdown_ok env then [] else [Reply_plain r]))
     \<and> ((\<forall>p\<in>set (get_auto_replies st (chat_key msg)). \<not> str_in (fst p) (lower (body_of msg)))
           \<longrightarrow> filter is_reply (filter_message env st (Some msg)) = [])
     \<and> (is_admin_user env \<longrightarrow>
           (\<forall>e\<in>set (filter_message env st (Some msg)). is_reply e)
           \<and> Delete_message \<notin> set (filter_message env st (Some msg))
           \<and> (\<forall>c r. Send_warning c r \<notin> set (filter_message env st (Some msg))))"
proof -
  let ?rs = "get_auto_replies st (chat_key msg)"
  let ?body = "lower (body_of msg)"
  let ?replies = "auto_reply_loop (markdown_ok env) ?rs ?body"
  let ?dels = "if is_admin_user env then []
        else (case check_message st (chat_key msg) (body_of msg) of
                None \<Rightarrow> []
              | Some r \<Rightarrow> delete_with_warning env (chat_key msg) r)"
  have fm: "filter_message env st (Some msg) = ?replies @ ?dels"
    using assms by (rule filter_message_group)
  have r: "\<forall>e\<in>set ?replies. is_reply e"
    using auto_reply_loop_replies by blast
  have d: "\<forall>e\<in>set ?dels. \<not> is_reply e"
    by (rule deletion_events_no_reply)
  have fr: "filter is_reply (filter_message env st (Some msg)) = ?replies"
    using filter_replies_append [OF r d] fm by simp
  have md: "(\<exists>x. Reply_markdown x \<in> set (filter_message env st (Some msg)))
              \<longleftrightarrow> (\<exists>x. Reply_markdown x \<in> set ?replies)"
  proof -
    have "Reply_markdown x \<notin> set ?dels" for x
      using d by (metis is_reply.simps(1))
    then show ?thesis by (simp add: fm)
  qed
  have a: "(\<exists>x. Reply_markdown x \<in> set (filter_message env st (Some msg)))
            \<longleftrightarrow> (\<exists>p\<in>set ?rs. \<exists>pre post. ?body = pre @ fst p @ post)"
    using md by (simp add: auto_reply_loop_markdown_iff str_in_iff)
  have b: "filter is_reply (filter_message env st (Some msg))
             = Reply_markdown x # (if markdown_ok env then [] else [Reply_plain x])"
    if "?rs = pre @ (t, x) # post" and "\<forall>p\<in>set pre. \<not> str_in (fst p) ?body" and "str_in t ?body"
    for pre t x post
    using that fr auto_reply_loop_first [of pre ?body t "markdown_ok env" x post] by simp
  have c: "filter is_reply (filter_message env st (Some msg)) = []"
    if "\<forall>p\<in>set ?rs. \<not> str_in (fst p) ?body"
    using that fr by (simp add: auto_reply_loop_none)
  have e: "(\<forall>e\<in>set (filter_message env st (Some msg)). is_reply e)
           \<and> Delete_message \<notin> set (filter_message env st (Some msg))
           \<and> (\<forall>c x. Send_warning c x \<notin> set (filter_message env st (Some msg)))"
    if "is_admin_user env"
  proof -
    have all: "\<forall>e\<in>set (filter_message env st (Some msg)). is_reply e"
      using that r by (simp add: fm)
    have "\<not> is_reply Delete_message" and "\<And>c x. \<not> is_reply (Send_warning c x)"
      by simp_all
    with all show ?thesis by blast
  qed
  show ?thesis
    using a b c e by blast
qed

text \<open>
  A group with link blocking switched on and two auto replies, for "price" (stored
  first) and for "hello". An administrator writes a text in which both triggers occur,
  the second one in capitals, and a link: the only call is the reply for "price".
\<close>

theorem auto_reply_first_trigger_witness:
  "filter_message
     \<lparr>member_status = Some ''administrator'', markdown_ok = True, msg_delete_ok = True, warning_ok = True\<rparr>
     (add_auto_reply
        (add_auto_reply (set_block_links initial_bot ''-100123'' True) ''-100123'' ''Price'' ''See the pinned post'')
        ''-100123'' ''hello'' ''Hi there'')
     (Some \<lparr>chat_type = ''supergroup'', user_id = 7, effective_chat_id = -100123,
            m_text = Some ''HELLO, the price list is at http://x.io'', m_caption = None\<rparr>)
   = [Reply_markdown ''See the pinned post'']"
  using auto_reply_first_trigger
    [of "\<lparr>chat_type = ''supergroup'', user_id = 7, effective_chat_id = -100123,
            m_text = Some ''HELLO, the price list is at http://x.io'', m_caption = None\<rparr>"
        "\<lparr>member_status = Some ''administrator'', markdown_ok = True, msg_delete_ok = True, warning_ok = True\<rparr>"
        "add_auto_reply
        (add_auto_reply (set_block_links initial_bot ''-100123'' True) ''-100123'' ''Price'' ''See the pinned post'')
        ''-100123'' ''hello'' ''Hi there''"]
  by (simp add: filter_eval storage_eval text_eval re_eval)

section \<open>The patterns of the moderation filter\<close>




















section \<open>The moderation filter: the order of the checks\<close>





end
